theory Spec2Isabelle
  imports Complex_Main "HOL-Library.Multiset"
begin

section \<open>The catalog add-on of \<^verbatim>\<open>index.js\<close>\<close>

text \<open>
  The program keeps two module-level caches, \<^verbatim>\<open>catalogCache\<close> and \<^verbatim>\<open>metaCache\<close>,
  fills them from the TMDB web API and answers two kinds of requests from them.
  The embedding follows the source function by function. Objects received from TMDB are
  records whose optional fields are \<open>option\<close>s (\<open>None\<close> stands for an absent or
  \<^verbatim>\<open>null\<close> property), a rejected promise or thrown exception is a value, the remote API
  and the clock are arguments, and the awaits of a refresh run are the steps of a small
  transition system.
\<close>

subsection \<open>Strings and numbers of the host language\<close>

text \<open>
  Strings are lists of characters with code points below 256. Identifiers, page numbers
  and minutes, which the program only stores, compares and prints in decimal, are
  natural numbers (a number of this kind is printed, and used as a property key, as its
  decimal numeral); readings of the clock, in milliseconds, are integers; the vote
  average, which is printed with \<^verbatim>\<open>toFixed(1)\<close>, is the rational value of the double.
\<close>

datatype js_error = TypeError

definition digit_char :: "nat \<Rightarrow> char" where
  "digit_char d = ''0123456789'' ! (d mod 10)"

function string_of_nat :: "nat \<Rightarrow> string" where
  \<comment> \<open>the decimal numeral a template literal prints for a non-negative integer\<close>
  "string_of_nat n =
     (if n < 10 then [digit_char n]
      else string_of_nat (n div 10) @ [digit_char (n mod 10)])"
  by pat_completeness auto
termination
  by (relation "measure (\<lambda>n. n)") auto

declare string_of_nat.simps [simp del]

definition toFixed1 :: "rat \<Rightarrow> string" where
  \<comment> \<open>\<^verbatim>\<open>x.toFixed(1)\<close> for \<open>\<bar>x\<bar> < 10\<^sup>2\<^sup>1\<close>: the nearest number of tenths, the larger
      one on a tie, printed with one fraction digit\<close>
  "toFixed1 x =
     (let n = nat \<lfloor>10 * \<bar>x\<bar> + 1 / 2\<rfloor>
      in (if x < 0 then ''-'' else []) @ string_of_nat (n div 10) @ ''.'' @
         [digit_char (n mod 10)])"

definition toLowerCase_char :: "char \<Rightarrow> char" where
  \<comment> \<open>A to Z and the capital letters of Latin-1 (all of 0xC0 to 0xDE but the
      multiplication sign 0xD7) move up by 32\<close>
  "toLowerCase_char c =
     (let n = (of_char c :: nat)
      in if (65 \<le> n \<and> n \<le> 90) \<or> (192 \<le> n \<and> n \<le> 222 \<and> n \<noteq> 215)
         then char_of (n + 32) else c)"

definition toLowerCase :: "string \<Rightarrow> string" where
  "toLowerCase s = map toLowerCase_char s"

fun startsWith :: "string \<Rightarrow> string \<Rightarrow> bool" where
  "startsWith s [] = True"
| "startsWith [] (q # qs) = False"
| "startsWith (c # cs) (q # qs) = (c = q \<and> startsWith cs qs)"

fun str_includes :: "string \<Rightarrow> string \<Rightarrow> bool" where
  \<comment> \<open>\<^verbatim>\<open>s.includes(q)\<close>: \<open>q\<close> occurs in \<open>s\<close> at some position\<close>
  "str_includes [] q = (q = [])"
| "str_includes (c # cs) q = (startsWith (c # cs) q \<or> str_includes cs q)"

fun str_split :: "char \<Rightarrow> string \<Rightarrow> string \<times> string list" where
  \<comment> \<open>\<^verbatim>\<open>s.split(sep)\<close> for a one-character separator. The array it returns is never
      empty: the pair is its element 0 and the elements after it.\<close>
  "str_split sep [] = ([], [])"
| "str_split sep (c # cs) =
     (case str_split sep cs of
        (seg, segs) \<Rightarrow> if c = sep then ([], seg # segs) else (c # seg, segs))"

subsection \<open>Data\<close>

datatype genre = Genre (genre_id: nat) (name: string)

text \<open>
  A movie object of TMDB, with the properties the program reads. A result of
  \<^verbatim>\<open>/discover/movie\<close> and the answer of \<^verbatim>\<open>/movie/{id}\<close> are both of this shape (a
  discover result has no \<open>genres\<close> and no \<open>runtime\<close>).
\<close>

record movie =
  movie_id :: nat
  title :: "string option"
  overview :: "string option"
  poster_path :: "string option"
  backdrop_path :: "string option"
  release_date :: "string option"
  genres :: "genre list option"
  runtime :: "nat option"
  vote_average :: "rat option"

text \<open>
  Both caches hold objects \<^verbatim>\<open>{ timestamp, data }\<close>. \<^verbatim>\<open>catalogCache\<close> starts as \<^verbatim>\<open>{}\<close>,
  so there both properties may be absent; an entry of \<^verbatim>\<open>metaCache\<close> always has both.
\<close>

record ('t, 'd) stamped =
  timestamp :: 't
  data :: 'd

datatype movie_data =
    ErrorMarker  \<comment> \<open>\<^verbatim>\<open>{ error: 'Failed to fetch movie data' }\<close>\<close>
  | MovieData movie

type_synonym catalog_cache = "(int option, movie list option) stamped"
type_synonym meta_entry = "(int, movie_data) stamped"
type_synonym meta_cache = "string \<rightharpoonup> meta_entry"

record cache =
  catalogCache :: catalog_cache
  metaCache :: meta_cache

definition initial_cache :: cache where
  \<comment> \<open>\<^verbatim>\<open>let catalogCache = {}; let metaCache = {};\<close>\<close>
  "initial_cache =
     \<lparr>catalogCache = \<lparr>timestamp = None, data = None\<rparr>, metaCache = Map.empty\<rparr>"

text \<open>
  The objects the two handlers answer with. The properties \<^verbatim>\<open>id\<close>, \<^verbatim>\<open>type\<close>,
  \<^verbatim>\<open>name\<close>, ... are the fields \<open>meta_id\<close>, \<open>meta_type\<close>, \<open>meta_name\<close>, ...; the meta
  handler's object has four properties more.
\<close>

record meta_preview =
  meta_id :: string
  meta_type :: string
  meta_name :: "string option"
  meta_poster :: "string option"
  meta_description :: string
  meta_releaseInfo :: string

record meta_full = meta_preview +
  meta_background :: "string option"
  meta_genre :: "string list"
  meta_runtime :: string
  meta_rating :: string

subsection \<open>The catalog handler\<close>

definition releaseInfo_of :: "string option \<Rightarrow> string" where
  \<comment> \<open>\<^verbatim>\<open>d ? d.split('-')[0] : 'Unknown'\<close>\<close>
  "releaseInfo_of d =
     (case d of
        None \<Rightarrow> ''Unknown''
      | Some s \<Rightarrow> if s = [] then ''Unknown'' else fst (str_split CHR ''-'' s))"

definition poster_of :: "string \<Rightarrow> string option \<Rightarrow> string option" where
  \<comment> \<open>\<^verbatim>\<open>p ? `https://image.tmdb.org/t/p/<width>${p}` : null\<close>\<close>
  "poster_of width p =
     (case p of
        None \<Rightarrow> None
      | Some s \<Rightarrow> if s = [] then None else Some (''https://image.tmdb.org/t/p/'' @ width @ s))"

definition description_of :: "string option \<Rightarrow> string" where
  \<comment> \<open>\<^verbatim>\<open>overview || 'No description available'\<close>\<close>
  "description_of v =
     (case v of
        None \<Rightarrow> ''No description available''
      | Some s \<Rightarrow> if s = [] then ''No description available'' else s)"

definition preview :: "movie \<Rightarrow> meta_preview" where
  "preview item =
     \<lparr>meta_id = ''tmdb-'' @ string_of_nat (movie_id item),
      meta_type = ''movie'',
      meta_name = title item,
      meta_poster = poster_of ''w500'' (poster_path item),
      meta_description = description_of (overview item),
      meta_releaseInfo = releaseInfo_of (release_date item)\<rparr>"

fun filter_title :: "string \<Rightarrow> movie list \<Rightarrow> js_error + movie list" where
  \<comment> \<open>\<^verbatim>\<open>results.filter(movie => movie.title.toLowerCase().includes(q.toLowerCase()))\<close>:
      the callback runs on the elements in order, and \<^verbatim>\<open>movie.title.toLowerCase()\<close>
      throws when the title is absent\<close>
  "filter_title q [] = Inr []"
| "filter_title q (m # ms) =
     (case title m of
        None \<Rightarrow> Inl TypeError
      | Some t \<Rightarrow>
          (case filter_title q ms of
             Inl e \<Rightarrow> Inl e
           | Inr r \<Rightarrow> Inr (if str_includes (toLowerCase t) (toLowerCase q) then m # r else r)))"

definition cached_results :: "cache \<Rightarrow> movie list" where
  \<comment> \<open>\<^verbatim>\<open>catalogCache.data || []\<close>\<close>
  "cached_results c = (case data (catalogCache c) of None \<Rightarrow> [] | Some ms \<Rightarrow> ms)"

definition catalogHandler :: "cache \<Rightarrow> string option \<Rightarrow> js_error + meta_preview list" where
  \<comment> \<open>the argument is \<^verbatim>\<open>args.extra.search\<close>, \<open>None\<close> when \<^verbatim>\<open>args.extra\<close> or the property
      is absent: \<^verbatim>\<open>args.extra && args.extra.search ? args.extra.search : ''\<close>\<close>
  "catalogHandler c search =
     (let searchQuery = (case search of None \<Rightarrow> [] | Some s \<Rightarrow> if s \<noteq> [] then s else []);
          results = cached_results c
      in if searchQuery \<noteq> []
         then (case filter_title searchQuery results of
                 Inl e \<Rightarrow> Inl e
               | Inr r \<Rightarrow> Inr (map preview r))
         else Inr (map preview results))"

subsection \<open>The meta handler\<close>

text \<open>
  \<^verbatim>\<open>metaCache\<close> is a plain object, so \<^verbatim>\<open>metaCache[id]\<close> finds the properties of
  \<^verbatim>\<open>Object.prototype\<close> where the object has none of its own under that key. Each of
  them is truthy and has no \<^verbatim>\<open>data\<close> property.
\<close>

definition object_prototype_properties :: "string list" where
  "object_prototype_properties =
     [''constructor'', ''__proto__'', ''hasOwnProperty'', ''isPrototypeOf'',
      ''propertyIsEnumerable'', ''toLocaleString'', ''toString'', ''valueOf'',
      ''__defineGetter__'', ''__defineSetter__'', ''__lookupGetter__'',
      ''__lookupSetter__'']"

datatype 'a property = Undefined | Inherited | Own 'a

definition get_property :: "(string \<rightharpoonup> 'a) \<Rightarrow> string \<Rightarrow> 'a property" where
  "get_property obj k =
     (case obj k of
        Some v \<Rightarrow> Own v
      | None \<Rightarrow> if k \<in> set object_prototype_properties then Inherited else Undefined)"

definition meta_of :: "string \<Rightarrow> movie \<Rightarrow> meta_full" where
  "meta_of args_id movieData =
     \<lparr>meta_id = args_id,
      meta_type = ''movie'',
      meta_name =
        Some (case title movieData of
                None \<Rightarrow> ''Unknown Title''
              | Some t \<Rightarrow> if t = [] then ''Unknown Title'' else t),
      meta_poster = poster_of ''w500'' (poster_path movieData),
      meta_description = description_of (overview movieData),
      meta_releaseInfo = releaseInfo_of (release_date movieData),
      meta_background = poster_of ''w1280'' (backdrop_path movieData),
      meta_genre = (case genres movieData of None \<Rightarrow> [] | Some gs \<Rightarrow> map name gs),
      meta_runtime =
        (case runtime movieData of
           None \<Rightarrow> ''Unknown''
         | Some r \<Rightarrow> if r = 0 then ''Unknown'' else string_of_nat r @ '' min''),
      meta_rating =
        (case vote_average movieData of
           None \<Rightarrow> ''N/A''
         | Some v \<Rightarrow> if v = 0 then ''N/A'' else toFixed1 v)\<rparr>"

definition metaHandler :: "cache \<Rightarrow> string \<Rightarrow> js_error + meta_full option" where
  \<comment> \<open>The argument is \<^verbatim>\<open>args.id\<close>. \<^verbatim>\<open>args.id.split('-')[1]\<close> is \<^verbatim>\<open>undefined\<close> when the
      string has no hyphen, and \<^verbatim>\<open>metaCache[undefined]\<close> reads the key
      \<^verbatim>\<open>"undefined"\<close>. Under an inherited property \<^verbatim>\<open>movieData\<close> is \<^verbatim>\<open>undefined\<close>
      and \<^verbatim>\<open>movieData.error\<close> throws.\<close>
  "metaHandler c args_id =
     (let id = (case snd (str_split CHR ''-'' args_id) of [] \<Rightarrow> ''undefined'' | k # _ \<Rightarrow> k)
      in case get_property (metaCache c) id of
           Undefined \<Rightarrow> Inr None
         | Inherited \<Rightarrow> Inl TypeError
         | Own entry \<Rightarrow>
             (case data entry of
                ErrorMarker \<Rightarrow> Inr None
              | MovieData movieData \<Rightarrow> Inr (Some (meta_of args_id movieData))))"

subsection \<open>The remote API and the configuration\<close>

text \<open>
  A request of \<^verbatim>\<open>axios.get\<close> is rejected (network or HTTP failure; a body without a
  \<^verbatim>\<open>results\<close> array makes the next statement throw, which the same handler catches),
  or resolves to the parsed body. The API is a function of the request: within one run
  no discover request is issued twice. \<open>Date_parse\<close> is \<^verbatim>\<open>new Date(s)\<close> read as a
  number of milliseconds, \<open>None\<close> for an invalid date; the formats it accepts beyond
  ISO 8601 depend on the engine, so it is a parameter.
\<close>

datatype 'a response = Rejected | Resolved 'a

record discover_data =
  results :: "movie list"
  total_pages :: nat

record env =
  NUM_PAGES :: nat
  discover_movie :: "string \<Rightarrow> nat \<Rightarrow> discover_data response"
  movie_details :: "nat \<Rightarrow> movie response"
  Date_parse :: "string \<Rightarrow> int option"

definition GENRE_COMBINATIONS :: "string list" where
  "GENRE_COMBINATIONS = [''28,12'', ''28,35'', ''28,14'', ''14,12'', ''14,35'']"

subsection \<open>Fetching the catalog\<close>

definition date_of :: "env \<Rightarrow> movie \<Rightarrow> int option" where
  \<comment> \<open>\<^verbatim>\<open>new Date(movie.release_date)\<close>; an absent date gives an invalid one\<close>
  "date_of e m = (case release_date m of None \<Rightarrow> None | Some s \<Rightarrow> Date_parse e s)"

definition valid_release_date :: "env \<Rightarrow> movie \<Rightarrow> bool" where
  \<comment> \<open>\<^verbatim>\<open>movie.release_date && !isNaN(new Date(movie.release_date))\<close>\<close>
  "valid_release_date e m =
     (case release_date m of
        None \<Rightarrow> False
      | Some s \<Rightarrow> s \<noteq> [] \<and> Date_parse e s \<noteq> None)"

function fetch_pages :: "env \<Rightarrow> string \<Rightarrow> nat \<Rightarrow> movie list \<Rightarrow> nat list \<times> movie list" where
  \<comment> \<open>The \<^verbatim>\<open>do ... while\<close> loop of \<^verbatim>\<open>fetchMoviesForCombination\<close> inside its
      \<^verbatim>\<open>try\<close>, entered with the values of \<^verbatim>\<open>page\<close> and \<^verbatim>\<open>allResults\<close>. The first
      component lists the pages requested (each request is logged before it is sent),
      the second is the value returned; the \<^verbatim>\<open>catch\<close> block returns \<^verbatim>\<open>[]\<close>.\<close>
  "fetch_pages e genreCombination page allResults =
     (case discover_movie e genreCombination page of
        Rejected \<Rightarrow> ([page], [])
      | Resolved d \<Rightarrow>
          (let allResults' = allResults @ filter (valid_release_date e) (results d)
           in if page + 1 \<le> NUM_PAGES e \<and> page + 1 \<le> total_pages d
              then (case fetch_pages e genreCombination (page + 1) allResults' of
                      (requested, r) \<Rightarrow> (page # requested, r))
              else ([page], allResults')))"
  by pat_completeness auto
termination
  by (relation "measure (\<lambda>(e, g, page, acc). NUM_PAGES e + 1 - page)") auto

declare fetch_pages.simps [simp del]

definition page_results :: "env \<Rightarrow> string \<Rightarrow> nat \<Rightarrow> movie list" where
  \<comment> \<open>\<^verbatim>\<open>validResults\<close> of one page\<close>
  "page_results e genreCombination page =
     (case discover_movie e genreCombination page of
        Rejected \<Rightarrow> []
      | Resolved d \<Rightarrow> filter (valid_release_date e) (results d))"

definition requested_pages :: "env \<Rightarrow> string \<Rightarrow> nat list" where
  "requested_pages e genreCombination = fst (fetch_pages e genreCombination 1 [])"

definition fetchMoviesForCombination :: "env \<Rightarrow> string \<Rightarrow> movie list" where
  "fetchMoviesForCombination e genreCombination = snd (fetch_pages e genreCombination 1 [])"

definition compare_release :: "env \<Rightarrow> movie \<Rightarrow> movie \<Rightarrow> int" where
  \<comment> \<open>\<^verbatim>\<open>(a, b) => new Date(b.release_date) - new Date(a.release_date)\<close>; the difference
      is \<^verbatim>\<open>NaN\<close> when a date is invalid, which \<^verbatim>\<open>sort\<close> reads as 0\<close>
  "compare_release e a b =
     (case (date_of e b, date_of e a) of
        (Some tb, Some ta) \<Rightarrow> tb - ta
      | _ \<Rightarrow> 0)"

definition not_earlier :: "env \<Rightarrow> movie \<Rightarrow> movie \<Rightarrow> bool" where
  \<comment> \<open>both movies have a valid release date, and that of \<open>a\<close> is not before that of
      \<open>b\<close>: the order the comparison function asks for\<close>
  "not_earlier e a b =
     (case (date_of e a, date_of e b) of
        (Some ta, Some tb) \<Rightarrow> tb \<le> ta
      | _ \<Rightarrow> False)"

text \<open>
  \<^verbatim>\<open>Array.prototype.sort\<close> with a comparison function is a stable sort. Insertion from
  the right, each element placed before the first one it does not compare greater than,
  is such a sort.
\<close>

fun insert_sorted :: "('a \<Rightarrow> 'a \<Rightarrow> int) \<Rightarrow> 'a \<Rightarrow> 'a list \<Rightarrow> 'a list" where
  "insert_sorted cmp x [] = [x]"
| "insert_sorted cmp x (y # ys) =
     (if cmp x y \<le> 0 then x # y # ys else y # insert_sorted cmp x ys)"

fun array_sort :: "('a \<Rightarrow> 'a \<Rightarrow> int) \<Rightarrow> 'a list \<Rightarrow> 'a list" where
  "array_sort cmp [] = []"
| "array_sort cmp (x # xs) = insert_sorted cmp x (array_sort cmp xs)"

definition fetched_in_order :: "env \<Rightarrow> movie list" where
  \<comment> \<open>\<^verbatim>\<open>allResults\<close> of \<^verbatim>\<open>fetchMovies\<close> after its loop over the combinations\<close>
  "fetched_in_order e = concat (map (fetchMoviesForCombination e) GENRE_COMBINATIONS)"

definition fetchMovies :: "env \<Rightarrow> movie list" where
  "fetchMovies e = array_sort (compare_release e) (fetched_in_order e)"

definition fetchMovieMetadata :: "env \<Rightarrow> nat \<Rightarrow> movie_data" where
  "fetchMovieMetadata e movieId =
     (case movie_details e movieId of
        Rejected \<Rightarrow> ErrorMarker
      | Resolved d \<Rightarrow> MovieData d)"

subsection \<open>A refresh run\<close>

definition store_meta :: "env \<Rightarrow> int \<Rightarrow> movie \<Rightarrow> cache \<Rightarrow> cache" where
  \<comment> \<open>The body of the loop over \<^verbatim>\<open>results\<close> after its await:
      \<^verbatim>\<open>metaCache[movieId] = { timestamp: Date.now(), data: movieData }\<close>, with \<open>t\<close> the
      reading of the clock. The property key of a number is its decimal numeral.\<close>
  "store_meta e t m c =
     c\<lparr>metaCache := (metaCache c)
         (string_of_nat (movie_id m) \<mapsto>
            \<lparr>timestamp = t, data = fetchMovieMetadata e (movie_id m)\<rparr>)\<rparr>"

fun merge_metadata :: "env \<Rightarrow> (nat \<Rightarrow> int) \<Rightarrow> nat \<Rightarrow> movie list \<Rightarrow> cache \<Rightarrow> cache" where
  \<comment> \<open>the loop \<^verbatim>\<open>for (const movie of results)\<close>; \<open>now k\<close> is reading number \<open>k\<close> of
      \<^verbatim>\<open>Date.now()\<close> in the run\<close>
  "merge_metadata e now k [] c = c"
| "merge_metadata e now k (m # ms) c = merge_metadata e now (Suc k) ms (store_meta e (now k) m c)"

definition new_snapshot :: "env \<Rightarrow> int \<Rightarrow> cache \<Rightarrow> cache" where
  \<comment> \<open>\<^verbatim>\<open>catalogCache = { timestamp: Date.now(), data: results }\<close>\<close>
  "new_snapshot e t c = c\<lparr>catalogCache := \<lparr>timestamp = Some t, data = Some (fetchMovies e)\<rparr>\<rparr>"

definition updateCatalogAndMetaCache :: "env \<Rightarrow> (nat \<Rightarrow> int) \<Rightarrow> cache \<Rightarrow> cache" where
  \<comment> \<open>The run from its call to its return. Nothing in the \<^verbatim>\<open>try\<close> block throws:
      the fetches and \<^verbatim>\<open>saveCache\<close> catch their own errors. \<^verbatim>\<open>saveCache\<close> writes the two
      files and leaves the caches as they are.\<close>
  "updateCatalogAndMetaCache e now c =
     merge_metadata e now 1 (fetchMovies e) (new_snapshot e (now 0) c)"

text \<open>
  The same function cut at its awaits. Between two awaits the code runs without
  interruption, and a request handler can run only while the run waits, so the caches a
  reader can see are those at the awaits. The awaits inside \<^verbatim>\<open>fetchMovies\<close> are one
  state: the caches do not change there.
\<close>

datatype run =
    AwaitFetchMovies
  | AwaitMetadata movie "movie list"  \<comment> \<open>the movie being fetched, the rest of \<^verbatim>\<open>results\<close>\<close>
  | AwaitSave
  | Finished

fun next_await :: "movie list \<Rightarrow> run" where
  "next_await [] = AwaitSave"
| "next_await (m # ms) = AwaitMetadata m ms"

fun resume :: "env \<Rightarrow> int \<Rightarrow> run \<times> cache \<Rightarrow> run \<times> cache" where
  \<comment> \<open>the code from one await to the next; \<open>t\<close> is the clock when it runs\<close>
  "resume e t (AwaitFetchMovies, c) = (next_await (fetchMovies e), new_snapshot e t c)"
| "resume e t (AwaitMetadata m ms, c) = (next_await ms, store_meta e t m c)"
| "resume e t (AwaitSave, c) = (Finished, c)"
| "resume e t (Finished, c) = (Finished, c)"

fun resume_n :: "env \<Rightarrow> (nat \<Rightarrow> int) \<Rightarrow> nat \<Rightarrow> nat \<Rightarrow> run \<times> cache \<Rightarrow> run \<times> cache" where
  \<comment> \<open>\<open>n\<close> resumptions, the first at clock reading number \<open>k\<close>\<close>
  "resume_n e now k 0 s = s"
| "resume_n e now k (Suc n) s = resume_n e now (Suc k) n (resume e (now k) s)"

definition observed :: "env \<Rightarrow> (nat \<Rightarrow> int) \<Rightarrow> cache \<Rightarrow> nat \<Rightarrow> cache" where
  \<comment> \<open>what a reader sees after the run started from \<open>c\<close> has been resumed \<open>n\<close> times\<close>
  "observed e now c n = snd (resume_n e now 0 n (AwaitFetchMovies, c))"

subsection \<open>Start-up and the daily job\<close>

text \<open>
  What reading and parsing a cache file gives. A file whose content is the JSON text
  \<^verbatim>\<open>null\<close> parses without an error, to \<^verbatim>\<open>null\<close>. (A file with another JSON value that is
  not an object of the shape \<^verbatim>\<open>saveCache\<close> writes, a number, a string or an array, is not
  among the cases.)
\<close>

datatype 'a file_read =
    ReadFails   \<comment> \<open>\<^verbatim>\<open>fs.readFile\<close> rejects: the file is missing or unreadable\<close>
  | ParseFails  \<comment> \<open>\<^verbatim>\<open>JSON.parse\<close> throws: the content is not JSON\<close>
  | ParsedNull  \<comment> \<open>\<^verbatim>\<open>JSON.parse\<close> returns \<^verbatim>\<open>null\<close>\<close>
  | Parsed 'a   \<comment> \<open>\<^verbatim>\<open>JSON.parse\<close> returns an object that \<^verbatim>\<open>saveCache\<close> wrote\<close>

text \<open>
  The two module variables as \<^verbatim>\<open>loadCache\<close> leaves them: \<open>None\<close> is the value
  \<^verbatim>\<open>null\<close>. No other code assigns \<^verbatim>\<open>null\<close> to them, and nothing assigns
  \<^verbatim>\<open>metaCache\<close> after the load.
\<close>

record variables =
  catalogCache_var :: "catalog_cache option"
  metaCache_var :: "meta_cache option"

definition initial_variables :: variables where
  \<comment> \<open>\<^verbatim>\<open>let catalogCache = {}; let metaCache = {};\<close>\<close>
  "initial_variables =
     \<lparr>catalogCache_var = Some \<lparr>timestamp = None, data = None\<rparr>, metaCache_var = Some Map.empty\<rparr>"

definition loadCache :: "variables \<Rightarrow> catalog_cache file_read \<Rightarrow> meta_cache file_read \<Rightarrow> variables" where
  \<comment> \<open>Two \<^verbatim>\<open>try\<close> blocks; each \<^verbatim>\<open>catch\<close> only logs. In each block the variable is
      assigned as soon as \<^verbatim>\<open>JSON.parse\<close> returns, before the log line. With \<^verbatim>\<open>null\<close>
      the log line throws (\<^verbatim>\<open>catalogCache.data\<close>, \<^verbatim>\<open>Object.keys(metaCache)\<close>), the
      \<^verbatim>\<open>catch\<close> logs that no cache was found, and the variable stays \<^verbatim>\<open>null\<close>. When
      reading or parsing fails the variable is as it was.\<close>
  "loadCache v catalogFile metaFile =
     (let v1 = (case catalogFile of
                  Parsed x \<Rightarrow> v\<lparr>catalogCache_var := Some x\<rparr>
                | ParsedNull \<Rightarrow> v\<lparr>catalogCache_var := None\<rparr>
                | _ \<Rightarrow> v);
          v2 = (case metaFile of
                  Parsed x \<Rightarrow> v1\<lparr>metaCache_var := Some x\<rparr>
                | ParsedNull \<Rightarrow> v1\<lparr>metaCache_var := None\<rparr>
                | _ \<Rightarrow> v1)
      in v2)"

definition refresh_needed :: "int \<Rightarrow> catalog_cache \<Rightarrow> bool" where
  \<comment> \<open>\<^verbatim>\<open>!catalogCache.timestamp || Date.now() - catalogCache.timestamp > 24 * 60 * 60 * 1000\<close>\<close>
  "refresh_needed t cc =
     (case timestamp cc of
        None \<Rightarrow> True
      | Some ts \<Rightarrow> ts = 0 \<or> t - ts > 24 * 60 * 60 * 1000)"

text \<open>
  The server: the two caches and the refresh runs that have been started.
  \<^verbatim>\<open>startServer\<close> loads the files, registers \<^verbatim>\<open>refreshCache\<close> as the daily job and calls
  it at once when the catalog is stale. \<^verbatim>\<open>refreshCache\<close> calls
  \<^verbatim>\<open>updateCatalogAndMetaCache\<close>, which runs up to its first await. The job calls the same
  function whenever it fires.

  When \<^verbatim>\<open>catalogCache\<close> is \<^verbatim>\<open>null\<close>, the test \<^verbatim>\<open>!catalogCache.timestamp\<close> throws. Nothing
  catches it: the promise of \<^verbatim>\<open>startServer()\<close> is rejected, no refresh run is started and
  \<^verbatim>\<open>serveHTTP\<close> is not reached. When only \<^verbatim>\<open>metaCache\<close> is \<^verbatim>\<open>null\<close>, the start-up goes on
  with a table that is \<^verbatim>\<open>null\<close> and stays so.
\<close>

record server =
  shared :: cache
  runs :: "run list"

definition refreshCache :: "server \<Rightarrow> server" where
  "refreshCache s = s\<lparr>runs := runs s @ [AwaitFetchMovies]\<rparr>"

datatype started =
    Rejects js_error            \<comment> \<open>the test of the timestamp throws\<close>
  | NullTable catalog_cache bool
      \<comment> \<open>\<^verbatim>\<open>metaCache\<close> is \<^verbatim>\<open>null\<close>; the catalog, and whether a refresh run was started\<close>
  | Started server              \<comment> \<open>both variables hold objects\<close>

definition startServer :: "int \<Rightarrow> catalog_cache file_read \<Rightarrow> meta_cache file_read \<Rightarrow> started" where
  \<comment> \<open>up to the first await after \<^verbatim>\<open>loadCache\<close>; \<open>t\<close> is the clock at the test\<close>
  "startServer t catalogFile metaFile =
     (let v = loadCache initial_variables catalogFile metaFile
      in case catalogCache_var v of
           None \<Rightarrow> Rejects TypeError
         | Some cc \<Rightarrow>
             (case metaCache_var v of
                None \<Rightarrow> NullTable cc (refresh_needed t cc)
              | Some mc \<Rightarrow>
                  (let s = \<lparr>shared = \<lparr>catalogCache = cc, metaCache = mc\<rparr>, runs = []\<rparr>
                   in Started (if refresh_needed t cc then refreshCache s else s))))"

definition run_on_null_table :: "env \<Rightarrow> int \<Rightarrow> catalog_cache \<times> bool" where
  \<comment> \<open>\<^verbatim>\<open>updateCatalogAndMetaCache\<close> while \<^verbatim>\<open>metaCache\<close> is \<^verbatim>\<open>null\<close>: the snapshot is
      assigned at clock \<open>t\<close>; for the first entry of \<^verbatim>\<open>results\<close> the assignment
      \<^verbatim>\<open>metaCache[movieId] = ...\<close> throws, the \<^verbatim>\<open>catch\<close> of the run logs it and
      \<^verbatim>\<open>saveCache\<close> is not reached. The pair is the new \<^verbatim>\<open>catalogCache\<close> and whether
      \<^verbatim>\<open>saveCache\<close> was called.\<close>
  "run_on_null_table e t =
     (\<lparr>timestamp = Some t, data = Some (fetchMovies e)\<rparr>, fetchMovies e = [])"

datatype event =
    Fire            \<comment> \<open>the daily job fires\<close>
  | Resume nat int  \<comment> \<open>the await of run number \<open>i\<close> completes at clock \<open>t\<close>\<close>

fun step :: "env \<Rightarrow> server \<Rightarrow> event \<Rightarrow> server" where
  "step e s Fire = refreshCache s"
| "step e s (Resume i t) =
     (if i < length (runs s)
      then (case resume e t (runs s ! i, shared s) of
              (r, c) \<Rightarrow> \<lparr>shared = c, runs = (runs s)[i := r]\<rparr>)
      else s)"

definition in_flight :: "server \<Rightarrow> nat" where
  "in_flight s = length (filter (\<lambda>r. r \<noteq> Finished) (runs s))"

subsection \<open>Sample data\<close>

definition sample_movie :: "nat \<Rightarrow> string option \<Rightarrow> string option \<Rightarrow> movie" where
  "sample_movie i t d =
     \<lparr>movie_id = i, title = t, overview = None, poster_path = None, backdrop_path = None,
      release_date = d, genres = None, runtime = None, vote_average = None\<rparr>"

definition sample_Date_parse :: "string \<Rightarrow> int option" where
  \<comment> \<open>\<^verbatim>\<open>Date.parse\<close> on three strings\<close>
  "sample_Date_parse s =
     (if s = ''2020-01-01'' then Some 1577836800000
      else if s = ''2021-06-15'' then Some 1623715200000
      else if s = ''2022-03-04'' then Some 1646352000000
      else None)"

definition titled_cache :: cache where
  "titled_cache =
     \<lparr>catalogCache =
        \<lparr>timestamp = Some 1700000000000,
         data = Some [sample_movie 1 (Some ''Mad Max'') (Some ''2020-01-01''),
                      sample_movie 2 (Some ''Iron Man'') (Some ''2021-06-15'')]\<rparr>,
      metaCache = Map.empty\<rparr>"

definition untitled_cache :: cache where
  "untitled_cache =
     \<lparr>catalogCache =
        \<lparr>timestamp = Some 1700000000000,
         data = Some [sample_movie 1 (Some ''Mad Max'') (Some ''2020-01-01''),
                      sample_movie 3 None (Some ''2022-03-04''),
                      sample_movie 2 (Some ''Iron Man'') (Some ''2021-06-15'')]\<rparr>,
      metaCache = Map.empty\<rparr>"

definition nameless_cache :: cache where
  "nameless_cache =
     \<lparr>catalogCache =
        \<lparr>timestamp = Some 1700000000000,
         data = Some [sample_movie 3 None (Some ''2022-03-04'')]\<rparr>,
      metaCache = Map.empty\<rparr>"

definition fight_club :: movie where
  "fight_club =
     \<lparr>movie_id = 550, title = Some ''Fight Club'', overview = Some ''An insomniac office worker.'',
      poster_path = Some ''/fc.jpg'', backdrop_path = None,
      release_date = Some ''1999-10-15'', genres = Some [Genre 18 ''Drama''],
      runtime = Some 139, vote_average = Some (8438 / 1000)\<rparr>"

definition meta_sample_cache :: cache where
  "meta_sample_cache =
     \<lparr>catalogCache = \<lparr>timestamp = None, data = None\<rparr>,
      metaCache =
        [''550'' \<mapsto> \<lparr>timestamp = 1700000000000, data = MovieData fight_club\<rparr>,
         ''551'' \<mapsto> \<lparr>timestamp = 1700000000001, data = ErrorMarker\<rparr>]\<rparr>"

definition sample_env :: env where
  "sample_env =
     \<lparr>NUM_PAGES = 5,
      discover_movie =
        (\<lambda>g p.
           if g = ''28,12'' \<and> p = 1
           then Resolved
                  \<lparr>results = [sample_movie 11 (Some ''A'') (Some ''2020-01-01''),
                              sample_movie 12 (Some ''B'') None,
                              sample_movie 13 (Some ''C'') (Some ''2021-06-15'')],
                   total_pages = 2\<rparr>
           else if g = ''28,12'' \<and> p = 2
           then Resolved
                  \<lparr>results = [sample_movie 14 (Some ''D'') (Some ''2020-01-01''),
                              sample_movie 15 (Some ''E'') (Some ''soon'')],
                   total_pages = 2\<rparr>
           else if g = ''28,35'' \<and> p = 1
           then Resolved
                  \<lparr>results = [sample_movie 16 (Some ''F'') (Some ''2022-03-04'')],
                   total_pages = 3\<rparr>
           else Rejected),
      movie_details =
        (\<lambda>i. if i = 13 then Resolved (sample_movie 13 (Some ''C'') (Some ''2021-06-15''))
             else Rejected),
      Date_parse = sample_Date_parse\<rparr>"

definition zero_cap_env :: env where
  \<comment> \<open>the sample API with \<^verbatim>\<open>NUM_PAGES=0\<close> in the environment\<close>
  "zero_cap_env = sample_env\<lparr>NUM_PAGES := 0\<rparr>"

definition cold_server :: server where
  \<comment> \<open>the server after a start-up without cache files: its first run is in flight\<close>
  "cold_server = \<lparr>shared = initial_cache, runs = [AwaitFetchMovies]\<rparr>"

definition sample_clock :: "nat \<Rightarrow> int" where
  "sample_clock k = 1700000000000 + int k"

definition old_cache :: cache where
  \<comment> \<open>a cache loaded from files of an earlier run\<close>
  "old_cache =
     \<lparr>catalogCache =
        \<lparr>timestamp = Some 1600000000000,
         data = Some [sample_movie 999 (Some ''Z'') (Some ''2020-01-01'')]\<rparr>,
      metaCache =
        [''999'' \<mapsto> \<lparr>timestamp = 1600000000001,
                       data = MovieData (sample_movie 999 (Some ''Z'') (Some ''2020-01-01''))\<rparr>,
         ''13'' \<mapsto> \<lparr>timestamp = 1600000000002, data = ErrorMarker\<rparr>]\<rparr>"

section \<open>Properties\<close>

subsection \<open>Strings\<close>

lemma startsWith_iff: "startsWith s q \<longleftrightarrow> (\<exists>ss. s = q @ ss)"
  by (induction s q rule: startsWith.induct) auto

lemma str_includes_iff: "str_includes s q \<longleftrightarrow> (\<exists>ps ss. s = ps @ q @ ss)"
proof (induction s)
  case Nil
  then show ?case by auto
next
  case (Cons c cs)
  show ?case
  proof
    assume "str_includes (c # cs) q"
    then consider "startsWith (c # cs) q" | "str_includes cs q" by auto
    then show "\<exists>ps ss. c # cs = ps @ q @ ss"
    proof cases
      case 1
      then obtain ss where "c # cs = q @ ss" by (auto simp: startsWith_iff)
      then have "c # cs = [] @ q @ ss" by simp
      then show ?thesis by blast
    next
      case 2
      then obtain ps ss where "cs = ps @ q @ ss" using Cons.IH by auto
      then have "c # cs = (c # ps) @ q @ ss" by simp
      then show ?thesis by blast
    qed
  next
    assume "\<exists>ps ss. c # cs = ps @ q @ ss"
    then obtain ps ss where eq: "c # cs = ps @ q @ ss" by blast
    show "str_includes (c # cs) q"
    proof (cases ps)
      case Nil
      with eq have "startsWith (c # cs) q" by (auto simp: startsWith_iff)
      then show ?thesis by simp
    next
      case (Cons p ps')
      with eq have "cs = ps' @ q @ ss" by simp
      then have "str_includes cs q" using Cons.IH by blast
      then show ?thesis by simp
    qed
  qed
qed

lemma filter_title_titled:
  "list_all (\<lambda>m. title m \<noteq> None) ms \<Longrightarrow>
   filter_title q ms =
     Inr (filter (\<lambda>m. \<exists>t. title m = Some t \<and> str_includes (toLowerCase t) (toLowerCase q)) ms)"
  by (induction ms) auto

lemma filter_title_untitled:
  "\<not> list_all (\<lambda>m. title m \<noteq> None) ms \<Longrightarrow> filter_title q ms = Inl TypeError"
  by (induction ms) (auto split: option.splits sum.splits)

subsection \<open>The catalog handler\<close>

lemma lower_man: "toLowerCase ''man'' = ''man''"
  by code_simp

lemma lower_mad_max: "toLowerCase ''Mad Max'' = ''mad max''"
  by code_simp

lemma lower_iron_man: "toLowerCase ''Iron Man'' = ''iron man''"
  by code_simp

text \<open>
  Claim C4, amended. Without a query, or with the empty one, the handler answers with
  the preview of every cached entry, in order. With a non-empty query \<open>q\<close>, in a cache
  whose entries all have a title, it answers with the previews of exactly the entries
  whose lower-cased title has the lower-cased \<open>q\<close> as a substring. An empty cache
  gives the empty list for every query. (A cache with an entry without a title is the
  subject of C10.)
\<close>

theorem catalogHandler_search:
  "catalogHandler c None = Inr (map preview (cached_results c)) \<and>
   catalogHandler c (Some []) = Inr (map preview (cached_results c)) \<and>
   (q \<noteq> [] \<and> (\<forall>m \<in> set (cached_results c). title m \<noteq> None) \<longrightarrow>
      catalogHandler c (Some q) =
        Inr (map preview
              (filter (\<lambda>m. \<exists>t ps ss. title m = Some t \<and> toLowerCase t = ps @ toLowerCase q @ ss)
                 (cached_results c)))) \<and>
   (cached_results c = [] \<longrightarrow> catalogHandler c search = Inr [])"
proof -
  have absent: "catalogHandler c None = Inr (map preview (cached_results c))"
    by (simp add: catalogHandler_def)
  have empty: "catalogHandler c (Some []) = Inr (map preview (cached_results c))"
    by (simp add: catalogHandler_def)
  have query: "catalogHandler c (Some q) =
        Inr (map preview
              (filter (\<lambda>m. \<exists>t ps ss. title m = Some t \<and> toLowerCase t = ps @ toLowerCase q @ ss)
                 (cached_results c)))"
    if "q \<noteq> []" and "\<forall>m \<in> set (cached_results c). title m \<noteq> None"
  proof -
    from that(2) have "list_all (\<lambda>m. title m \<noteq> None) (cached_results c)"
      by (simp add: list_all_iff)
    then have "filter_title q (cached_results c) =
      Inr (filter (\<lambda>m. \<exists>t. title m = Some t \<and> str_includes (toLowerCase t) (toLowerCase q))
             (cached_results c))"
      by (rule filter_title_titled)
    with that(1) show ?thesis
      by (simp add: catalogHandler_def str_includes_iff)
  qed
  have none: "catalogHandler c search = Inr []" if "cached_results c = []"
    using that by (cases search) (simp_all add: catalogHandler_def)
  from absent empty query none show ?thesis by blast
qed

text \<open>
  The example of the specification: of "Mad Max" and "Iron Man", the query "man" finds
  only "Iron Man"; and the cache before any load or refresh gives the empty list.
\<close>

theorem catalogHandler_search_witness:
  "catalogHandler titled_cache (Some ''man'') =
     Inr [preview (sample_movie 2 (Some ''Iron Man'') (Some ''2021-06-15''))] \<and>
   catalogHandler initial_cache (Some ''man'') = Inr []"
proof -
  have res: "cached_results titled_cache =
      [sample_movie 1 (Some ''Mad Max'') (Some ''2020-01-01''),
       sample_movie 2 (Some ''Iron Man'') (Some ''2021-06-15'')]"
    by (simp add: cached_results_def titled_cache_def)
  have titled: "\<forall>m \<in> set (cached_results titled_cache). title m \<noteq> None"
    by (simp add: res sample_movie_def)
  have inc: "\<not> str_includes ''mad max'' ''man''" "str_includes ''iron man'' ''man''"
    by simp_all
  have "catalogHandler titled_cache (Some ''man'') =
      Inr (map preview
            (filter (\<lambda>m. \<exists>t ps ss. title m = Some t \<and> toLowerCase t = ps @ toLowerCase ''man'' @ ss)
               (cached_results titled_cache)))"
    using catalogHandler_search [of titled_cache "''man''"] titled by simp
  also have "filter (\<lambda>m. \<exists>t ps ss. title m = Some t \<and> toLowerCase t = ps @ toLowerCase ''man'' @ ss)
               (cached_results titled_cache) =
             [sample_movie 2 (Some ''Iron Man'') (Some ''2021-06-15'')]"
    using inc
    by (simp add: res sample_movie_def lower_man lower_mad_max lower_iron_man
          str_includes_iff del: str_includes.simps)
  finally have first: "catalogHandler titled_cache (Some ''man'') =
     Inr [preview (sample_movie 2 (Some ''Iron Man'') (Some ''2021-06-15''))]"
    by simp
  have "cached_results initial_cache = []"
    by (simp add: cached_results_def initial_cache_def)
  then have "catalogHandler initial_cache (Some ''man'') = Inr []"
    using catalogHandler_search [of initial_cache "''man''" "Some ''man''"] by simp
  with first show ?thesis by simp
qed

text \<open>
  C4 as stated, for every cached state, fails: with an entry that has no title in the
  cache, a search does not answer with the matching subset, it throws.
\<close>

theorem catalogHandler_search_counterexample:
  "catalogHandler untitled_cache (Some ''man'') = Inl TypeError \<and>
   catalogHandler untitled_cache (Some ''man'') \<noteq>
     Inr (map preview
           (filter (\<lambda>m. \<exists>t ps ss. title m = Some t \<and> toLowerCase t = ps @ toLowerCase ''man'' @ ss)
              (cached_results untitled_cache)))"
proof -
  have "catalogHandler untitled_cache (Some ''man'') = Inl TypeError"
    by (simp add: catalogHandler_def cached_results_def untitled_cache_def sample_movie_def)
  then show ?thesis by simp
qed

text \<open>
  Claim C10. Whenever some cached entry has no title, every search with a non-empty
  query throws a \<open>TypeError\<close>, while the empty and the absent query are answered
  from the same cache; and when every cached entry has a title, every search is
  answered.
\<close>

theorem catalogHandler_needs_titles:
  "(q \<noteq> [] \<and> (\<exists>m \<in> set (cached_results c). title m = None) \<longrightarrow>
      catalogHandler c (Some q) = Inl TypeError) \<and>
   catalogHandler c (Some []) = Inr (map preview (cached_results c)) \<and>
   catalogHandler c None = Inr (map preview (cached_results c)) \<and>
   ((\<forall>m \<in> set (cached_results c). title m \<noteq> None) \<longrightarrow>
      (\<exists>r. catalogHandler c search = Inr r))"
proof -
  have throws: "catalogHandler c (Some q) = Inl TypeError"
    if "q \<noteq> []" and "\<exists>m \<in> set (cached_results c). title m = None"
  proof -
    from that(2) have "\<not> list_all (\<lambda>m. title m \<noteq> None) (cached_results c)"
      by (auto simp: list_all_iff)
    then have "filter_title q (cached_results c) = Inl TypeError"
      by (rule filter_title_untitled)
    with that(1) show ?thesis by (simp add: catalogHandler_def)
  qed
  have total: "\<exists>r. catalogHandler c search = Inr r"
    if "\<forall>m \<in> set (cached_results c). title m \<noteq> None"
  proof -
    from that have "list_all (\<lambda>m. title m \<noteq> None) (cached_results c)"
      by (simp add: list_all_iff)
    then show ?thesis
      by (cases search) (simp_all add: catalogHandler_def filter_title_titled)
  qed
  have "catalogHandler c (Some []) = Inr (map preview (cached_results c))"
    and "catalogHandler c None = Inr (map preview (cached_results c))"
    by (simp_all add: catalogHandler_def)
  with throws total show ?thesis by blast
qed

text \<open>A cached state with one entry, which has no title.\<close>

theorem catalogHandler_needs_titles_witness:
  "catalogHandler nameless_cache (Some ''a'') = Inl TypeError \<and>
   catalogHandler nameless_cache (Some []) =
     Inr [preview (sample_movie 3 None (Some ''2022-03-04''))]"
proof -
  have res: "cached_results nameless_cache = [sample_movie 3 None (Some ''2022-03-04'')]"
    by (simp add: cached_results_def nameless_cache_def)
  have "\<exists>m \<in> set (cached_results nameless_cache). title m = None"
    by (simp add: res sample_movie_def)
  then show ?thesis
    using catalogHandler_needs_titles [of "''a''" nameless_cache] by (simp add: res)
qed

subsection \<open>Decimal numerals and the meta handler\<close>

lemma digit_char_digit: "digit_char d \<in> set ''0123456789''"
proof -
  have "d mod 10 < length ''0123456789''" by simp
  then have "''0123456789'' ! (d mod 10) \<in> set ''0123456789''" by (rule nth_mem)
  then show ?thesis by (simp only: digit_char_def)
qed

lemma digit_char_inj: "digit_char a = digit_char b \<Longrightarrow> a mod 10 = b mod 10"
proof -
  assume eq: "digit_char a = digit_char b"
  have d: "distinct ''0123456789''" by simp
  have "a mod 10 < length ''0123456789''" "b mod 10 < length ''0123456789''" by simp_all
  with d eq show ?thesis
    unfolding digit_char_def by (simp only: nth_eq_iff_index_eq)
qed

lemma string_of_nat_small: "n < 10 \<Longrightarrow> string_of_nat n = [digit_char n]"
  by (subst string_of_nat.simps) simp

lemma string_of_nat_large:
  "\<not> n < 10 \<Longrightarrow> string_of_nat n = string_of_nat (n div 10) @ [digit_char (n mod 10)]"
  by (subst string_of_nat.simps) simp

lemma string_of_nat_digits: "set (string_of_nat n) \<subseteq> set ''0123456789''"
proof (induction n rule: string_of_nat.induct)
  case (1 n)
  show ?case
  proof (cases "n < 10")
    case True
    then show ?thesis
      using digit_char_digit [of n] by (simp add: string_of_nat_small)
  next
    case False
    then show ?thesis
      using 1 digit_char_digit [of "n mod 10"] by (simp add: string_of_nat_large)
  qed
qed

lemma string_of_nat_not_Nil: "string_of_nat n \<noteq> []"
  by (cases "n < 10") (simp_all add: string_of_nat_small string_of_nat_large)

lemma string_of_nat_no_hyphen: "CHR ''-'' \<notin> set (string_of_nat n)"
  using string_of_nat_digits [of n] by auto

lemma string_of_nat_not_inherited: "string_of_nat n \<notin> set object_prototype_properties"
proof
  assume "string_of_nat n \<in> set object_prototype_properties"
  then have "CHR ''o'' \<in> set (string_of_nat n) \<or> CHR ''e'' \<in> set (string_of_nat n) \<or>
      CHR ''t'' \<in> set (string_of_nat n)"
    unfolding object_prototype_properties_def by auto
  then show False using string_of_nat_digits [of n] by auto
qed

lemma string_of_nat_inj: "string_of_nat a = string_of_nat b \<Longrightarrow> a = b"
proof (induction a arbitrary: b rule: string_of_nat.induct)
  case (1 a)
  show ?case
  proof (cases "a < 10")
    case a: True
    show ?thesis
    proof (cases "b < 10")
      case True
      with a "1.prems" have "digit_char a = digit_char b"
        by (simp add: string_of_nat_small)
      then have "a mod 10 = b mod 10" by (rule digit_char_inj)
      with a True show ?thesis by simp
    next
      case False
      with a "1.prems" have "string_of_nat (b div 10) = []"
        by (simp add: string_of_nat_small string_of_nat_large)
      then show ?thesis by (simp add: string_of_nat_not_Nil)
    qed
  next
    case a: False
    show ?thesis
    proof (cases "b < 10")
      case True
      with a "1.prems" have "string_of_nat (a div 10) = []"
        by (simp add: string_of_nat_small string_of_nat_large)
      then show ?thesis by (simp add: string_of_nat_not_Nil)
    next
      case False
      with a "1.prems" have
        "string_of_nat (a div 10) = string_of_nat (b div 10)"
        "digit_char (a mod 10) = digit_char (b mod 10)"
        by (simp_all add: string_of_nat_large)
      then have "a div 10 = b div 10" "a mod 10 = b mod 10"
        using "1.IH" [OF a] digit_char_inj [of "a mod 10" "b mod 10"] by simp_all
      then show ?thesis by (metis div_mult_mod_eq)
    qed
  qed
qed

lemma str_split_no_sep: "sep \<notin> set s \<Longrightarrow> str_split sep s = (s, [])"
  by (induction s) auto

lemma str_split_tmdb:
  "CHR ''-'' \<notin> set s \<Longrightarrow> str_split CHR ''-'' (''tmdb-'' @ s) = (''tmdb'', [s])"
  by (simp add: str_split_no_sep)

lemma metaHandler_key:
  "metaHandler c (''tmdb-'' @ string_of_nat n) =
     (case get_property (metaCache c) (string_of_nat n) of
        Undefined \<Rightarrow> Inr None
      | Inherited \<Rightarrow> Inl TypeError
      | Own entry \<Rightarrow>
          (case data entry of
             ErrorMarker \<Rightarrow> Inr None
           | MovieData movieData \<Rightarrow> Inr (Some (meta_of (''tmdb-'' @ string_of_nat n) movieData))))"
proof -
  have sp: "str_split CHR ''-'' (''tmdb-'' @ string_of_nat n) = (''tmdb'', [string_of_nat n])"
    by (rule str_split_tmdb [OF string_of_nat_no_hyphen])
  show ?thesis
    unfolding metaHandler_def sp by simp
qed

text \<open>
  The identifiers the catalog handler hands out are \<^verbatim>\<open>tmdb-\<close> followed by the numeral of
  a number \<open>n\<close>, and the table is keyed by that numeral. For these the meta handler
  answers \<^verbatim>\<open>{ meta: null }\<close> when the table has no entry for \<open>n\<close>, gives the same
  answer when the entry holds the failure marker, and answers with \<open>meta_of\<close> of the
  record when the entry holds one.
\<close>

lemma metaHandler_numeric_id:
  "(metaCache c (string_of_nat n) = None \<longrightarrow>
      metaHandler c (''tmdb-'' @ string_of_nat n) = Inr None) \<and>
   (metaCache c (string_of_nat n) = Some \<lparr>timestamp = ts, data = ErrorMarker\<rparr> \<longrightarrow>
      metaHandler c (''tmdb-'' @ string_of_nat n) = Inr None) \<and>
   (metaCache c (string_of_nat n) = Some \<lparr>timestamp = ts, data = MovieData d\<rparr> \<longrightarrow>
      metaHandler c (''tmdb-'' @ string_of_nat n) =
        Inr (Some (meta_of (''tmdb-'' @ string_of_nat n) d)))"
  unfolding metaHandler_key get_property_def
  using string_of_nat_not_inherited [of n] by simp

lemma string_of_nat_samples:
  "string_of_nat 550 = ''550''" "string_of_nat 551 = ''551''" "string_of_nat 552 = ''552''"
  "string_of_nat 139 = ''139''"
  by code_simp+

lemma toFixed1_sample: "toFixed1 (4219 / 500) = ''8.4''"
  by code_simp

lemma meta_of_fight_club:
  "meta_of ''tmdb-550'' fight_club =
     \<lparr>meta_id = ''tmdb-550'', meta_type = ''movie'', meta_name = Some ''Fight Club'',
      meta_poster = Some ''https://image.tmdb.org/t/p/w500/fc.jpg'',
      meta_description = ''An insomniac office worker.'', meta_releaseInfo = ''1999'',
      meta_background = None, meta_genre = [''Drama''], meta_runtime = ''139 min'',
      meta_rating = ''8.4''\<rparr>"
  by (simp add: meta_of_def fight_club_def poster_of_def description_of_def releaseInfo_of_def
        string_of_nat_samples toFixed1_sample)

text \<open>
  A table with a fetched record under 550 and a failure marker under 551: the requests
  for 552 and 551 get the same answer, the request for 550 gets the view.
\<close>

lemma metaHandler_numeric_id_sample:
  "metaHandler meta_sample_cache ''tmdb-552'' = Inr None \<and>
   metaHandler meta_sample_cache ''tmdb-551'' = Inr None \<and>
   metaHandler meta_sample_cache ''tmdb-550'' =
     Inr (Some \<lparr>meta_id = ''tmdb-550'', meta_type = ''movie'', meta_name = Some ''Fight Club'',
                meta_poster = Some ''https://image.tmdb.org/t/p/w500/fc.jpg'',
                meta_description = ''An insomniac office worker.'', meta_releaseInfo = ''1999'',
                meta_background = None, meta_genre = [''Drama''], meta_runtime = ''139 min'',
                meta_rating = ''8.4''\<rparr>)"
  using metaHandler_numeric_id [of meta_sample_cache 552]
    metaHandler_numeric_id [of meta_sample_cache 551 1700000000001]
    metaHandler_numeric_id [of meta_sample_cache 550 1700000000000 fight_club]
  by (simp add: string_of_nat_samples meta_sample_cache_def meta_of_fight_club)

lemma inherited_no_hyphen:
  "k \<in> set object_prototype_properties \<Longrightarrow> CHR ''-'' \<notin> set k"
  by (auto simp: object_prototype_properties_def)

text \<open>
  Claim C6. The claim is about every id, and the handler takes any string. It does not
  hold for every id that is missing from the table: the test \<^verbatim>\<open>!metaCache[id]\<close> is meant
  to find the missing ones, but under a key that names a property every object inherits
  it finds the inherited value. For each such key that the table does not hold, the
  request \<^verbatim>\<open>tmdb-\<close> followed by the key is not answered with \<^verbatim>\<open>{ meta: null }\<close>: the
  handler throws a \<open>TypeError\<close>.
\<close>

theorem metaHandler_inherited_throws:
  "k \<in> set object_prototype_properties \<and> metaCache c k = None \<longrightarrow>
     metaHandler c (''tmdb-'' @ k) = Inl TypeError"
proof
  assume k: "k \<in> set object_prototype_properties \<and> metaCache c k = None"
  then have "CHR ''-'' \<notin> set k"
    by (simp add: inherited_no_hyphen)
  then have sp: "str_split CHR ''-'' (''tmdb-'' @ k) = (''tmdb'', [k])"
    by (rule str_split_tmdb)
  show "metaHandler c (''tmdb-'' @ k) = Inl TypeError"
    unfolding metaHandler_def sp using k by (simp add: get_property_def)
qed

text \<open>The request \<^verbatim>\<open>tmdb-constructor\<close> to a server whose table is empty.\<close>

theorem metaHandler_inherited_throws_witness:
  "metaCache initial_cache ''constructor'' = None \<and>
   metaHandler initial_cache ''tmdb-constructor'' = Inl TypeError"
proof -
  have "''constructor'' \<in> set object_prototype_properties"
    by (simp add: object_prototype_properties_def)
  moreover have "metaCache initial_cache ''constructor'' = None"
    by (simp add: initial_cache_def)
  ultimately show ?thesis
    using metaHandler_inherited_throws [of "''constructor''" initial_cache] by simp
qed

subsection \<open>Fetching and sorting the catalog\<close>

lemma set_insert_sorted: "set (insert_sorted cmp x ys) = insert x (set ys)"
  by (induction ys) auto

lemma mset_insert_sorted: "mset (insert_sorted cmp x ys) = add_mset x (mset ys)"
  by (induction ys) auto

lemma mset_array_sort: "mset (array_sort cmp xs) = mset xs"
  by (induction xs) (auto simp: mset_insert_sorted)

lemma set_array_sort: "set (array_sort cmp xs) = set xs"
  using mset_array_sort [of cmp xs] by (metis set_mset_mset)

lemma compare_release_dated:
  "date_of e a = Some ta \<Longrightarrow> date_of e b = Some tb \<Longrightarrow> compare_release e a b = tb - ta"
  by (simp add: compare_release_def)

lemma compare_release_positive:
  "0 < compare_release e a b \<Longrightarrow>
   \<exists>ta tb. date_of e a = Some ta \<and> date_of e b = Some tb \<and> ta < tb"
  by (auto simp: compare_release_def split: option.splits)

lemma not_earlier_trans: "not_earlier e a b \<Longrightarrow> not_earlier e b c \<Longrightarrow> not_earlier e a c"
  by (auto simp: not_earlier_def split: option.splits)

lemma compare_release_le:
  "date_of e a \<noteq> None \<Longrightarrow> date_of e b \<noteq> None \<Longrightarrow>
   compare_release e a b \<le> 0 \<Longrightarrow> not_earlier e a b"
  by (auto simp: compare_release_def not_earlier_def)

lemma compare_release_gt:
  "date_of e a \<noteq> None \<Longrightarrow> date_of e b \<noteq> None \<Longrightarrow>
   \<not> compare_release e a b \<le> 0 \<Longrightarrow> not_earlier e b a"
  by (auto simp: compare_release_def not_earlier_def)

lemma sorted_insert_sorted:
  assumes "date_of e x \<noteq> None"
    and "\<forall>m \<in> set ys. date_of e m \<noteq> None"
    and "sorted_wrt (not_earlier e) ys"
  shows "sorted_wrt (not_earlier e) (insert_sorted (compare_release e) x ys)"
  using assms(2,3)
proof (induction ys)
  case Nil
  then show ?case by simp
next
  case (Cons y ys)
  have y: "date_of e y \<noteq> None" using Cons.prems(1) by simp
  have tail: "\<forall>z \<in> set ys. not_earlier e y z" and sorted: "sorted_wrt (not_earlier e) ys"
    using Cons.prems(2) by simp_all
  show ?case
  proof (cases "compare_release e x y \<le> 0")
    case True
    have xy: "not_earlier e x y"
      using assms(1) y True by (rule compare_release_le)
    have "\<forall>z \<in> set ys. not_earlier e x z"
      using xy tail not_earlier_trans by blast
    with True xy Cons.prems(2) show ?thesis by simp
  next
    case False
    have yx: "not_earlier e y x"
      using assms(1) y False by (rule compare_release_gt)
    have ih: "sorted_wrt (not_earlier e) (insert_sorted (compare_release e) x ys)"
      using Cons.IH Cons.prems(1) sorted by simp
    have "\<forall>z \<in> set (insert_sorted (compare_release e) x ys). not_earlier e y z"
      using yx tail by (simp add: set_insert_sorted)
    with False ih show ?thesis by simp
  qed
qed

lemma sorted_array_sort:
  "\<forall>m \<in> set xs. date_of e m \<noteq> None \<Longrightarrow>
   sorted_wrt (not_earlier e) (array_sort (compare_release e) xs)"
proof (induction xs)
  case Nil
  then show ?case by simp
next
  case (Cons x xs)
  have x: "date_of e x \<noteq> None" using Cons.prems by simp
  have rest: "\<forall>m \<in> set (array_sort (compare_release e) xs). date_of e m \<noteq> None"
    using Cons.prems by (simp add: set_array_sort)
  have "sorted_wrt (not_earlier e) (array_sort (compare_release e) xs)"
    using Cons by simp
  with x rest have
    "sorted_wrt (not_earlier e) (insert_sorted (compare_release e) x (array_sort (compare_release e) xs))"
    by (rule sorted_insert_sorted)
  then show ?case by simp
qed

lemma filter_insert_sorted:
  "filter (\<lambda>m. date_of e m = Some d) (insert_sorted (compare_release e) x ys) =
   filter (\<lambda>m. date_of e m = Some d) (x # ys)"
proof (induction ys)
  case Nil
  then show ?case by simp
next
  case (Cons y ys)
  show ?case
  proof (cases "compare_release e x y \<le> 0")
    case True
    then show ?thesis by simp
  next
    case False
    then have "0 < compare_release e x y" by simp
    then obtain tx ty where "date_of e x = Some tx" "date_of e y = Some ty" "tx < ty"
      using compare_release_positive by blast
    with False Cons show ?thesis by auto
  qed
qed

lemma filter_array_sort:
  "filter (\<lambda>m. date_of e m = Some d) (array_sort (compare_release e) xs) =
   filter (\<lambda>m. date_of e m = Some d) xs"
  by (induction xs) (simp_all add: filter_insert_sorted)

lemma valid_release_date_dated: "valid_release_date e m \<Longrightarrow> date_of e m \<noteq> None"
  by (auto simp: valid_release_date_def date_of_def split: option.splits)

lemma fetch_pages_Rejected:
  "discover_movie e g p = Rejected \<Longrightarrow> fetch_pages e g p acc = ([p], [])"
  by (subst fetch_pages.simps) simp

lemma fetch_pages_last:
  "discover_movie e g p = Resolved d \<Longrightarrow>
   \<not> (p + 1 \<le> NUM_PAGES e \<and> p + 1 \<le> total_pages d) \<Longrightarrow>
   fetch_pages e g p acc = ([p], acc @ filter (valid_release_date e) (results d))"
  by (subst fetch_pages.simps) (auto simp: Let_def)

lemma fetch_pages_next:
  "discover_movie e g p = Resolved d \<Longrightarrow>
   p + 1 \<le> NUM_PAGES e \<and> p + 1 \<le> total_pages d \<Longrightarrow>
   fetch_pages e g p acc =
     (p # fst (fetch_pages e g (p + 1) (acc @ filter (valid_release_date e) (results d))),
      snd (fetch_pages e g (p + 1) (acc @ filter (valid_release_date e) (results d))))"
  by (subst fetch_pages.simps) (simp add: Let_def split_beta)

lemma snd_fetch_pages_next:
  "discover_movie e g p = Resolved d \<Longrightarrow>
   p + 1 \<le> NUM_PAGES e \<and> p + 1 \<le> total_pages d \<Longrightarrow>
   snd (fetch_pages e g p acc) =
     snd (fetch_pages e g (p + 1) (acc @ filter (valid_release_date e) (results d)))"
  by (simp only: fetch_pages_next snd_conv)

lemma fst_fetch_pages_next:
  "discover_movie e g p = Resolved d \<Longrightarrow>
   p + 1 \<le> NUM_PAGES e \<and> p + 1 \<le> total_pages d \<Longrightarrow>
   fst (fetch_pages e g p acc) =
     p # fst (fetch_pages e g (p + 1) (acc @ filter (valid_release_date e) (results d)))"
  by (simp only: fetch_pages_next fst_conv)

lemma fetch_pages_valid:
  "\<forall>m \<in> set acc. valid_release_date e m \<Longrightarrow>
   \<forall>m \<in> set (snd (fetch_pages e g p acc)). valid_release_date e m"
proof (induction k \<equiv> "NUM_PAGES e + 1 - p" arbitrary: p acc)
  case 0
  show ?case
  proof (cases "discover_movie e g p")
    case Rejected
    then show ?thesis by (simp add: fetch_pages_Rejected)
  next
    case (Resolved d)
    from 0 have "\<not> (p + 1 \<le> NUM_PAGES e \<and> p + 1 \<le> total_pages d)" by simp
    from fetch_pages_last [OF Resolved this, of acc]
    have "snd (fetch_pages e g p acc) = acc @ filter (valid_release_date e) (results d)"
      by simp
    with "0.prems" show ?thesis by (simp add: ball_Un)
  qed
next
  case (Suc k)
  show ?case
  proof (cases "discover_movie e g p")
    case Rejected
    then show ?thesis by (simp add: fetch_pages_Rejected)
  next
    case (Resolved d)
    define acc' where "acc' = acc @ filter (valid_release_date e) (results d)"
    have acc': "\<forall>m \<in> set acc'. valid_release_date e m"
      using Suc.prems by (simp add: acc'_def ball_Un)
    show ?thesis
    proof (cases "p + 1 \<le> NUM_PAGES e \<and> p + 1 \<le> total_pages d")
      case True
      from Suc.hyps(2) True have "k = NUM_PAGES e + 1 - (p + 1)" by simp
      from Suc.hyps(1) [OF this acc']
      have "\<forall>m \<in> set (snd (fetch_pages e g (p + 1) acc')). valid_release_date e m" .
      then show ?thesis
        unfolding snd_fetch_pages_next [OF Resolved True] acc'_def .
    next
      case False
      from fetch_pages_last [OF Resolved False, of acc]
      have "snd (fetch_pages e g p acc) = acc'"
        by (simp add: acc'_def)
      with acc' show ?thesis by simp
    qed
  qed
qed

lemma fetchMoviesForCombination_valid:
  "m \<in> set (fetchMoviesForCombination e g) \<Longrightarrow> valid_release_date e m"
  using fetch_pages_valid [of "[]" e g 1] by (simp add: fetchMoviesForCombination_def)

lemma fetched_in_order_valid: "m \<in> set (fetched_in_order e) \<Longrightarrow> valid_release_date e m"
  by (auto simp: fetched_in_order_def fetchMoviesForCombination_valid)

lemma catalogCache_store_meta: "catalogCache (store_meta e t m c) = catalogCache c"
  by (simp add: store_meta_def)

lemma catalogCache_merge_metadata: "catalogCache (merge_metadata e now k ms c) = catalogCache c"
  by (induction ms arbitrary: k c) (simp_all add: catalogCache_store_meta)

lemma data_updateCatalogAndMetaCache:
  "data (catalogCache (updateCatalogAndMetaCache e now c)) = Some (fetchMovies e)"
  by (simp add: updateCatalogAndMetaCache_def catalogCache_merge_metadata new_snapshot_def)

text \<open>
  Claim C5. After a refresh run the catalog snapshot holds a list of entries in which
  every entry has a release date that is not earlier than the date of any entry after
  it; for each date, the entries of that date stand in the order in which they were
  fetched; and the list has the fetched entries, each as often as it was fetched.
\<close>

theorem snapshot_sorted_stable:
  "\<exists>entries.
     data (catalogCache (updateCatalogAndMetaCache e now c)) = Some entries \<and>
     sorted_wrt (not_earlier e) entries \<and>
     (\<forall>d. filter (\<lambda>m. date_of e m = Some d) entries =
          filter (\<lambda>m. date_of e m = Some d) (fetched_in_order e)) \<and>
     mset entries = mset (fetched_in_order e)"
proof -
  have "\<forall>m \<in> set (fetched_in_order e). date_of e m \<noteq> None"
    using fetched_in_order_valid valid_release_date_dated by blast
  then have "sorted_wrt (not_earlier e) (fetchMovies e)"
    unfolding fetchMovies_def by (rule sorted_array_sort)
  moreover have "\<forall>d. filter (\<lambda>m. date_of e m = Some d) (fetchMovies e) =
          filter (\<lambda>m. date_of e m = Some d) (fetched_in_order e)"
    by (simp add: fetchMovies_def filter_array_sort)
  moreover have "mset (fetchMovies e) = mset (fetched_in_order e)"
    by (simp add: fetchMovies_def mset_array_sort)
  ultimately show ?thesis
    using data_updateCatalogAndMetaCache [of e now c] by blast
qed

lemma sample_combinations:
  "fetchMoviesForCombination sample_env ''28,12'' =
     [sample_movie 11 (Some ''A'') (Some ''2020-01-01''),
      sample_movie 13 (Some ''C'') (Some ''2021-06-15''),
      sample_movie 14 (Some ''D'') (Some ''2020-01-01'')]"
  "fetchMoviesForCombination sample_env ''28,35'' = []"
  "fetchMoviesForCombination sample_env ''28,14'' = []"
  "fetchMoviesForCombination sample_env ''14,12'' = []"
  "fetchMoviesForCombination sample_env ''14,35'' = []"
  by code_simp+

lemma sample_fetched_in_order:
  "fetched_in_order sample_env =
     [sample_movie 11 (Some ''A'') (Some ''2020-01-01''),
      sample_movie 13 (Some ''C'') (Some ''2021-06-15''),
      sample_movie 14 (Some ''D'') (Some ''2020-01-01'')]"
  by (simp add: fetched_in_order_def GENRE_COMBINATIONS_def sample_combinations)

lemma sample_fetchMovies:
  "fetchMovies sample_env =
     [sample_movie 13 (Some ''C'') (Some ''2021-06-15''),
      sample_movie 11 (Some ''A'') (Some ''2020-01-01''),
      sample_movie 14 (Some ''D'') (Some ''2020-01-01'')]"
  by code_simp

text \<open>
  A run in which the first combination yields A (2020-01-01) and C (2021-06-15) on page
  1 and D (2020-01-01) on page 2: C comes first, and A stays before D.
\<close>

theorem snapshot_sorted_stable_witness:
  "data (catalogCache (updateCatalogAndMetaCache sample_env sample_clock initial_cache)) =
     Some [sample_movie 13 (Some ''C'') (Some ''2021-06-15''),
           sample_movie 11 (Some ''A'') (Some ''2020-01-01''),
           sample_movie 14 (Some ''D'') (Some ''2020-01-01'')] \<and>
   sorted_wrt (not_earlier sample_env)
     [sample_movie 13 (Some ''C'') (Some ''2021-06-15''),
      sample_movie 11 (Some ''A'') (Some ''2020-01-01''),
      sample_movie 14 (Some ''D'') (Some ''2020-01-01'')] \<and>
   fetched_in_order sample_env =
     [sample_movie 11 (Some ''A'') (Some ''2020-01-01''),
      sample_movie 13 (Some ''C'') (Some ''2021-06-15''),
      sample_movie 14 (Some ''D'') (Some ''2020-01-01'')]"
proof -
  obtain entries where
    entries: "data (catalogCache (updateCatalogAndMetaCache sample_env sample_clock initial_cache)) =
       Some entries"
    and sorted: "sorted_wrt (not_earlier sample_env) entries"
    using snapshot_sorted_stable [of sample_env sample_clock initial_cache] by blast
  have "entries = fetchMovies sample_env"
    using entries by (simp add: data_updateCatalogAndMetaCache)
  with entries sorted show ?thesis
    by (simp only: sample_fetchMovies sample_fetched_in_order simp_thms)
qed

subsection \<open>Pagination\<close>

lemma fetch_pages_all_resolved:
  assumes "\<forall>q. p \<le> q \<and> q \<le> n \<longrightarrow>
             (\<exists>rs. discover_movie e g q = Resolved \<lparr>results = rs, total_pages = T\<rparr>)"
    and "1 \<le> p" and "p \<le> n" and "n = max 1 (min (NUM_PAGES e) T)"
  shows "fetch_pages e g p acc =
           ([p..<Suc n], acc @ concat (map (page_results e g) [p..<Suc n]))"
  using assms(1,2,3)
proof (induction k \<equiv> "n - p" arbitrary: p acc)
  case 0
  then have pn: "p = n" by simp
  from "0.prems"(1) pn obtain rs where
    d: "discover_movie e g p = Resolved \<lparr>results = rs, total_pages = T\<rparr>" by blast
  have stop: "\<not> (p + 1 \<le> NUM_PAGES e \<and> p + 1 \<le> total_pages \<lparr>results = rs, total_pages = T\<rparr>)"
    using pn assms(4) by (simp add: max_def min_def split: if_splits)
  have "page_results e g p = filter (valid_release_date e) rs"
    by (simp add: page_results_def d)
  then show ?case
    using fetch_pages_last [OF d stop, of acc] pn by simp
next
  case (Suc k)
  then have lt: "p < n" by simp
  from Suc.prems(1) lt obtain rs where
    d: "discover_movie e g p = Resolved \<lparr>results = rs, total_pages = T\<rparr>" by auto
  have go: "p + 1 \<le> NUM_PAGES e \<and> p + 1 \<le> total_pages \<lparr>results = rs, total_pages = T\<rparr>"
    using lt Suc.prems(2) assms(4) by (simp add: max_def min_def split: if_splits)
  have pr: "page_results e g p = filter (valid_release_date e) rs"
    by (simp add: page_results_def d)
  have k: "k = n - (p + 1)" using Suc.hyps(2) by simp
  have rest: "\<forall>q. p + 1 \<le> q \<and> q \<le> n \<longrightarrow>
             (\<exists>rs. discover_movie e g q = Resolved \<lparr>results = rs, total_pages = T\<rparr>)"
    using Suc.prems(1) by simp
  have ih: "fetch_pages e g (p + 1) (acc @ filter (valid_release_date e) rs) =
      ([p + 1..<Suc n],
       (acc @ filter (valid_release_date e) rs) @ concat (map (page_results e g) [p + 1..<Suc n]))"
    using Suc.hyps(1) [OF k rest] lt by simp
  have upt: "[p..<Suc n] = p # [p + 1..<Suc n]"
    using lt by (simp add: upt_conv_Cons)
  have "fetch_pages e g p acc =
      (p # [p + 1..<Suc n],
       (acc @ filter (valid_release_date e) rs) @ concat (map (page_results e g) [p + 1..<Suc n]))"
    unfolding fetch_pages_next [OF d go, of acc] by (simp only: ih fst_conv snd_conv discover_data.simps)
  then show ?case
    by (simp only: upt pr list.map concat.simps append_assoc)
qed

lemma fetch_pages_rejected:
  "q \<in> set (fst (fetch_pages e g p acc)) \<Longrightarrow> discover_movie e g q = Rejected \<Longrightarrow>
   snd (fetch_pages e g p acc) = [] \<and> (\<exists>ps. fst (fetch_pages e g p acc) = ps @ [q])"
proof (induction k \<equiv> "NUM_PAGES e + 1 - p" arbitrary: p acc)
  case 0
  show ?case
  proof (cases "discover_movie e g p")
    case Rejected
    then show ?thesis using "0.prems" by (simp add: fetch_pages_Rejected)
  next
    case (Resolved d)
    from 0 have stop: "\<not> (p + 1 \<le> NUM_PAGES e \<and> p + 1 \<le> total_pages d)" by simp
    have "fst (fetch_pages e g p acc) = [p]"
      by (simp only: fetch_pages_last [OF Resolved stop] fst_conv)
    with "0.prems" Resolved show ?thesis by simp
  qed
next
  case (Suc k)
  show ?case
  proof (cases "discover_movie e g p")
    case Rejected
    then show ?thesis using Suc.prems by (simp add: fetch_pages_Rejected)
  next
    case (Resolved d)
    show ?thesis
    proof (cases "p + 1 \<le> NUM_PAGES e \<and> p + 1 \<le> total_pages d")
      case True
      let ?acc = "acc @ filter (valid_release_date e) (results d)"
      have f: "fst (fetch_pages e g p acc) = p # fst (fetch_pages e g (p + 1) ?acc)"
        by (rule fst_fetch_pages_next [OF Resolved True])
      have s: "snd (fetch_pages e g p acc) = snd (fetch_pages e g (p + 1) ?acc)"
        by (rule snd_fetch_pages_next [OF Resolved True])
      have "q \<noteq> p" using Resolved Suc.prems(2) by auto
      with Suc.prems(1) have q: "q \<in> set (fst (fetch_pages e g (p + 1) ?acc))"
        unfolding f by simp
      from Suc.hyps(2) True have k: "k = NUM_PAGES e + 1 - (p + 1)" by simp
      from Suc.hyps(1) [OF k q Suc.prems(2)] obtain ps where
        "snd (fetch_pages e g (p + 1) ?acc) = []" "fst (fetch_pages e g (p + 1) ?acc) = ps @ [q]"
        by blast
      then have "snd (fetch_pages e g p acc) = []" "fst (fetch_pages e g p acc) = (p # ps) @ [q]"
        unfolding f s by simp_all
      then show ?thesis by blast
    next
      case False
      have "fst (fetch_pages e g p acc) = [p]"
        by (simp only: fetch_pages_last [OF Resolved False] fst_conv)
      with Suc.prems Resolved show ?thesis by simp
    qed
  qed
qed

text \<open>
  Claim C9, amended. Every entry that \<^verbatim>\<open>fetchMoviesForCombination\<close> returns has a
  release date that is present, not empty and parseable. The loop is a
  \<^verbatim>\<open>do ... while\<close>: page 1 is requested whatever the page cap and the page count are.
  When every page up to \<open>max 1 (min NUM_PAGES T)\<close> is delivered and reports \<open>T\<close> pages,
  the pages requested are exactly 1 to \<open>max 1 (min NUM_PAGES T)\<close>, in order, and the
  result is the valid entries of these pages, in order.
\<close>

theorem fetchMoviesForCombination_pages:
  "(\<forall>m \<in> set (fetchMoviesForCombination e g).
      \<exists>s. release_date m = Some s \<and> s \<noteq> [] \<and> Date_parse e s \<noteq> None) \<and>
   ((\<forall>q. 1 \<le> q \<and> q \<le> max 1 (min (NUM_PAGES e) T) \<longrightarrow>
       (\<exists>rs. discover_movie e g q = Resolved \<lparr>results = rs, total_pages = T\<rparr>)) \<longrightarrow>
    requested_pages e g = [1..<Suc (max 1 (min (NUM_PAGES e) T))] \<and>
    fetchMoviesForCombination e g =
      concat (map (page_results e g) [1..<Suc (max 1 (min (NUM_PAGES e) T))]))"
proof -
  have dated: "\<exists>s. release_date m = Some s \<and> s \<noteq> [] \<and> Date_parse e s \<noteq> None"
    if "m \<in> set (fetchMoviesForCombination e g)" for m
  proof -
    from that have "valid_release_date e m" by (rule fetchMoviesForCombination_valid)
    then show ?thesis
      by (cases "release_date m") (simp_all add: valid_release_date_def)
  qed
  have pages: "requested_pages e g = [1..<Suc (max 1 (min (NUM_PAGES e) T))] \<and>
    fetchMoviesForCombination e g =
      concat (map (page_results e g) [1..<Suc (max 1 (min (NUM_PAGES e) T))])"
    if all: "\<forall>q. 1 \<le> q \<and> q \<le> max 1 (min (NUM_PAGES e) T) \<longrightarrow>
       (\<exists>rs. discover_movie e g q = Resolved \<lparr>results = rs, total_pages = T\<rparr>)"
  proof -
    have "fetch_pages e g 1 [] =
        ([1..<Suc (max 1 (min (NUM_PAGES e) T))],
         [] @ concat (map (page_results e g) [1..<Suc (max 1 (min (NUM_PAGES e) T))]))"
      using all by (intro fetch_pages_all_resolved) simp_all
    then show ?thesis
      by (simp only: requested_pages_def fetchMoviesForCombination_def fst_conv snd_conv
            append_Nil simp_thms)
  qed
  from dated pages show ?thesis by blast
qed

lemma sample_pages:
  "requested_pages sample_env ''28,12'' = [1, 2]"
  "requested_pages sample_env ''28,35'' = [1, 2]"
  "requested_pages zero_cap_env ''28,12'' = [1]"
  "page_results sample_env ''28,12'' 1 =
     [sample_movie 11 (Some ''A'') (Some ''2020-01-01''),
      sample_movie 13 (Some ''C'') (Some ''2021-06-15'')]"
  "page_results sample_env ''28,12'' 2 = [sample_movie 14 (Some ''D'') (Some ''2020-01-01'')]"
  "page_results sample_env ''28,35'' 1 = [sample_movie 16 (Some ''F'') (Some ''2022-03-04'')]"
  by code_simp+

text \<open>
  The first combination of the sample API has two pages and the cap is 5: pages 1 and 2
  are requested, and the entry without a date and the one with an unparseable date are
  left out.
\<close>

theorem fetchMoviesForCombination_pages_witness:
  "requested_pages sample_env ''28,12'' = [1, 2] \<and>
   fetchMoviesForCombination sample_env ''28,12'' =
     [sample_movie 11 (Some ''A'') (Some ''2020-01-01''),
      sample_movie 13 (Some ''C'') (Some ''2021-06-15''),
      sample_movie 14 (Some ''D'') (Some ''2020-01-01'')]"
proof -
  have n: "max 1 (min (NUM_PAGES sample_env) 2) = 2"
    by (simp add: sample_env_def)
  have "\<exists>rs. discover_movie sample_env ''28,12'' q = Resolved \<lparr>results = rs, total_pages = 2\<rparr>"
    if "1 \<le> q" "q \<le> 2" for q
  proof -
    from that have "q = 1 \<or> q = 2" by auto
    then show ?thesis by (auto simp: sample_env_def)
  qed
  then have "requested_pages sample_env ''28,12'' = [1..<Suc 2] \<and>
      fetchMoviesForCombination sample_env ''28,12'' =
        concat (map (page_results sample_env ''28,12'') [1..<Suc 2])"
    using fetchMoviesForCombination_pages [of sample_env "''28,12''" 2] by (simp only: n) blast
  moreover have "[1..<Suc 2] = [1, 2]"
    by (simp add: upt_rec)
  moreover have "concat (map (page_results sample_env ''28,12'') [1, 2]) =
      [sample_movie 11 (Some ''A'') (Some ''2020-01-01''),
       sample_movie 13 (Some ''C'') (Some ''2021-06-15''),
       sample_movie 14 (Some ''D'') (Some ''2020-01-01'')]"
    by (simp only: list.map concat.simps sample_pages append.simps)
  ultimately show ?thesis by (simp only: simp_thms)
qed

text \<open>
  C9 as stated fails where the cap is below 1: with \<^verbatim>\<open>NUM_PAGES=0\<close> and a first page
  that reports 2 pages, page 1 is requested although the pages from 1 to
  \<open>min NUM_PAGES 2\<close> are none.
\<close>

theorem fetchMoviesForCombination_pages_counterexample:
  "(\<exists>rs. discover_movie zero_cap_env ''28,12'' 1 = Resolved \<lparr>results = rs, total_pages = 2\<rparr>) \<and>
   requested_pages zero_cap_env ''28,12'' = [1] \<and>
   [1..<Suc (min (NUM_PAGES zero_cap_env) 2)] = [] \<and>
   requested_pages zero_cap_env ''28,12'' \<noteq> [1..<Suc (min (NUM_PAGES zero_cap_env) 2)]"
  by (simp add: sample_pages) (simp add: zero_cap_env_def sample_env_def)

text \<open>
  Claim C2, amended. When a page request of a combination fails, the function returns
  the empty list, whatever the pages before it delivered, and no page after it is
  requested. The other combinations are not affected: the catalog holds what the
  combinations returned, each in full.
\<close>

theorem fetchMoviesForCombination_failure:
  "(q \<in> set (requested_pages e g) \<and> discover_movie e g q = Rejected \<longrightarrow>
      fetchMoviesForCombination e g = [] \<and> (\<exists>ps. requested_pages e g = ps @ [q])) \<and>
   mset (fetchMovies e) = mset (concat (map (fetchMoviesForCombination e) GENRE_COMBINATIONS))"
proof -
  have "fetchMoviesForCombination e g = [] \<and> (\<exists>ps. requested_pages e g = ps @ [q])"
    if "q \<in> set (requested_pages e g)" "discover_movie e g q = Rejected"
    using that fetch_pages_rejected [of q e g 1 "[]"]
    by (simp only: requested_pages_def fetchMoviesForCombination_def)
  moreover have
    "mset (fetchMovies e) = mset (concat (map (fetchMoviesForCombination e) GENRE_COMBINATIONS))"
    by (simp add: fetchMovies_def mset_array_sort fetched_in_order_def)
  ultimately show ?thesis by blast
qed

text \<open>
  The second combination of the sample API delivers page 1 and fails on page 2: nothing
  of it is returned, and the catalog has the three entries of the first combination.
\<close>

theorem fetchMoviesForCombination_failure_witness:
  "fetchMoviesForCombination sample_env ''28,35'' = [] \<and>
   (\<exists>ps. requested_pages sample_env ''28,35'' = ps @ [2]) \<and>
   mset (fetchMovies sample_env) =
     mset [sample_movie 11 (Some ''A'') (Some ''2020-01-01''),
           sample_movie 13 (Some ''C'') (Some ''2021-06-15''),
           sample_movie 14 (Some ''D'') (Some ''2020-01-01'')]"
proof -
  have "2 \<in> set (requested_pages sample_env ''28,35'')"
    by (simp add: sample_pages)
  moreover have "discover_movie sample_env ''28,35'' 2 = Rejected"
    by (simp add: sample_env_def)
  ultimately show ?thesis
    using fetchMoviesForCombination_failure [of 2 sample_env "''28,35''"]
    by (simp add: GENRE_COMBINATIONS_def sample_combinations)
qed

text \<open>
  C2 as stated fails: page 1 of the second combination delivered the entry F, page 2
  failed, and the function returns the empty list, not F.
\<close>

theorem fetchMoviesForCombination_failure_counterexample:
  "requested_pages sample_env ''28,35'' = [1, 2] \<and>
   page_results sample_env ''28,35'' 1 = [sample_movie 16 (Some ''F'') (Some ''2022-03-04'')] \<and>
   discover_movie sample_env ''28,35'' 2 = Rejected \<and>
   fetchMoviesForCombination sample_env ''28,35'' = [] \<and>
   fetchMoviesForCombination sample_env ''28,35'' \<noteq> page_results sample_env ''28,35'' 1"
  by code_simp

subsection \<open>The metadata table after a run\<close>

lemma metaCache_store_meta:
  "metaCache (store_meta e t m c) k =
     (if k = string_of_nat (movie_id m)
      then Some \<lparr>timestamp = t, data = fetchMovieMetadata e (movie_id m)\<rparr>
      else metaCache c k)"
  by (simp add: store_meta_def)

lemma merge_metadata_other:
  "k \<notin> (\<lambda>m. string_of_nat (movie_id m)) ` set ms \<Longrightarrow>
   metaCache (merge_metadata e now i ms c) k = metaCache c k"
  by (induction ms arbitrary: i c) (simp_all add: metaCache_store_meta)

lemma merge_metadata_stored:
  "m \<in> set ms \<Longrightarrow>
   \<exists>t. metaCache (merge_metadata e now i ms c) (string_of_nat (movie_id m)) =
         Some \<lparr>timestamp = t, data = fetchMovieMetadata e (movie_id m)\<rparr>"
proof (induction ms arbitrary: i c m)
  case Nil
  then show ?case by simp
next
  case (Cons x xs)
  show ?case
  proof (cases "string_of_nat (movie_id m) \<in> (\<lambda>m. string_of_nat (movie_id m)) ` set xs")
    case True
    then obtain y where y: "y \<in> set xs" "string_of_nat (movie_id m) = string_of_nat (movie_id y)"
      by auto
    then have same: "movie_id m = movie_id y" by (simp add: string_of_nat_inj)
    from Cons.IH [OF y(1)] obtain t where
      "metaCache (merge_metadata e now (Suc i) xs (store_meta e (now i) x c))
         (string_of_nat (movie_id y)) =
       Some \<lparr>timestamp = t, data = fetchMovieMetadata e (movie_id y)\<rparr>"
      by blast
    then show ?thesis by (simp add: same)
  next
    case False
    with Cons.prems have mx: "m = x" by auto
    from False have
      "metaCache (merge_metadata e now (Suc i) xs (store_meta e (now i) x c))
         (string_of_nat (movie_id m)) =
       metaCache (store_meta e (now i) x c) (string_of_nat (movie_id m))"
      by (rule merge_metadata_other)
    then show ?thesis by (simp add: mx metaCache_store_meta)
  qed
qed

lemma cached_results_updateCatalogAndMetaCache:
  "cached_results (updateCatalogAndMetaCache e now c) = fetchMovies e"
  by (simp add: cached_results_def data_updateCatalogAndMetaCache)

text \<open>
  Claim C8. The run stores one table entry per entry of the new snapshot, under the
  numeral of its identifier, and changes nothing else: an entry of the table before the
  run whose key is the identifier of no entry of the new snapshot is the same after the
  run, and under the identifier of each entry of the new snapshot the table then holds
  what \<^verbatim>\<open>fetchMovieMetadata\<close> returned for it in this run (the record, or the failure
  marker).
\<close>

theorem metaCache_merged:
  "(k \<notin> (\<lambda>m. string_of_nat (movie_id m)) ` set (cached_results (updateCatalogAndMetaCache e now c)) \<longrightarrow>
      metaCache (updateCatalogAndMetaCache e now c) k = metaCache c k) \<and>
   (\<forall>m \<in> set (cached_results (updateCatalogAndMetaCache e now c)).
      \<exists>t. metaCache (updateCatalogAndMetaCache e now c) (string_of_nat (movie_id m)) =
            Some \<lparr>timestamp = t, data = fetchMovieMetadata e (movie_id m)\<rparr>)"
proof -
  have kept: "metaCache (updateCatalogAndMetaCache e now c) k = metaCache c k"
    if "k \<notin> (\<lambda>m. string_of_nat (movie_id m)) ` set (fetchMovies e)"
    using that by (simp add: updateCatalogAndMetaCache_def merge_metadata_other new_snapshot_def)
  have stored: "\<exists>t. metaCache (updateCatalogAndMetaCache e now c) (string_of_nat (movie_id m)) =
            Some \<lparr>timestamp = t, data = fetchMovieMetadata e (movie_id m)\<rparr>"
    if "m \<in> set (fetchMovies e)" for m
    using that unfolding updateCatalogAndMetaCache_def by (rule merge_metadata_stored)
  from kept stored show ?thesis
    unfolding cached_results_updateCatalogAndMetaCache by blast
qed

lemma sample_run_table:
  "metaCache (updateCatalogAndMetaCache sample_env sample_clock old_cache) ''999'' =
     Some \<lparr>timestamp = 1600000000001,
           data = MovieData (sample_movie 999 (Some ''Z'') (Some ''2020-01-01''))\<rparr>"
  "metaCache (updateCatalogAndMetaCache sample_env sample_clock old_cache) ''13'' =
     Some \<lparr>timestamp = 1700000000001,
           data = MovieData (sample_movie 13 (Some ''C'') (Some ''2021-06-15''))\<rparr>"
  "metaCache (updateCatalogAndMetaCache sample_env sample_clock old_cache) ''11'' =
     Some \<lparr>timestamp = 1700000000002, data = ErrorMarker\<rparr>"
  by code_simp+

text \<open>
  A run on a cache that holds entries for 999, no longer in the catalog, and for 13:
  the entry of 999 stays, that of 13 is replaced.
\<close>

theorem metaCache_merged_witness:
  "metaCache (updateCatalogAndMetaCache sample_env sample_clock old_cache) ''999'' =
     metaCache old_cache ''999'' \<and>
   metaCache old_cache ''999'' =
     Some \<lparr>timestamp = 1600000000001,
           data = MovieData (sample_movie 999 (Some ''Z'') (Some ''2020-01-01''))\<rparr> \<and>
   metaCache (updateCatalogAndMetaCache sample_env sample_clock old_cache) ''13'' =
     Some \<lparr>timestamp = 1700000000001,
           data = MovieData (sample_movie 13 (Some ''C'') (Some ''2021-06-15''))\<rparr>"
proof -
  have "''999'' \<notin> (\<lambda>m. string_of_nat (movie_id m)) `
          set (cached_results (updateCatalogAndMetaCache sample_env sample_clock old_cache))"
    unfolding cached_results_updateCatalogAndMetaCache sample_fetchMovies
    by code_simp
  then have "metaCache (updateCatalogAndMetaCache sample_env sample_clock old_cache) ''999'' =
     metaCache old_cache ''999''"
    using metaCache_merged [of "''999''" sample_env sample_clock old_cache] by blast
  moreover have "metaCache old_cache ''999'' =
     Some \<lparr>timestamp = 1600000000001,
           data = MovieData (sample_movie 999 (Some ''Z'') (Some ''2020-01-01''))\<rparr>"
    by (simp add: old_cache_def)
  ultimately show ?thesis
    by (simp only: sample_run_table simp_thms)
qed

subsection \<open>What a reader sees during a run\<close>

lemma resume_n_Finished: "resume_n e now k n (Finished, c) = (Finished, c)"
  by (induction n arbitrary: k) simp_all

lemma resume_n_metadata:
  "resume_n e now k n (next_await ms, c) =
     (if n \<le> length ms
      then (next_await (drop n ms), merge_metadata e now k (take n ms) c)
      else (Finished, merge_metadata e now k ms c))"
proof (induction n arbitrary: k ms c)
  case 0
  then show ?case by simp
next
  case (Suc n)
  show ?case
  proof (cases ms)
    case Nil
    then show ?thesis by (simp add: resume_n_Finished)
  next
    case (Cons m ms')
    then show ?thesis by (simp add: Suc)
  qed
qed

lemma resume_n_run:
  "resume_n e now 0 (Suc n) (AwaitFetchMovies, c) =
     (if n \<le> length (fetchMovies e)
      then (next_await (drop n (fetchMovies e)),
            merge_metadata e now 1 (take n (fetchMovies e)) (new_snapshot e (now 0) c))
      else (Finished, updateCatalogAndMetaCache e now c))"
  by (simp add: resume_n_metadata updateCatalogAndMetaCache_def)

lemma run_finishes:
  "resume_n e now 0 (length (fetchMovies e) + 2) (AwaitFetchMovies, c) =
     (Finished, updateCatalogAndMetaCache e now c)"
  using resume_n_run [of e now "Suc (length (fetchMovies e))" c] by simp

text \<open>
  Claim C1, amended. A run is not atomic for readers. Before its first resumption a
  reader sees the caches as they were. After resumption number \<open>n + 1\<close> it sees the new
  catalog snapshot together with the table into which the records of the first \<open>n\<close>
  entries of the snapshot have been stored, one more with each resumption; from
  resumption number \<open>length results + 1\<close> on this is the pair the run ends with.
\<close>

theorem observed_during_run:
  "observed e now c 0 = c \<and>
   observed e now c (Suc n) =
     merge_metadata e now 1 (take n (fetchMovies e)) (new_snapshot e (now 0) c) \<and>
   observed e now c (Suc (length (fetchMovies e) + j)) = updateCatalogAndMetaCache e now c"
proof -
  have "observed e now c 0 = c"
    by (simp add: observed_def)
  moreover have "observed e now c (Suc n) =
      merge_metadata e now 1 (take n (fetchMovies e)) (new_snapshot e (now 0) c)"
    unfolding observed_def resume_n_run by (simp add: updateCatalogAndMetaCache_def)
  moreover have
    "observed e now c (Suc (length (fetchMovies e) + j)) = updateCatalogAndMetaCache e now c"
    unfolding observed_def resume_n_run by (simp add: updateCatalogAndMetaCache_def)
  ultimately show ?thesis by simp
qed

lemma sample_observed:
  "cached_results (observed sample_env sample_clock initial_cache 1) =
     [sample_movie 13 (Some ''C'') (Some ''2021-06-15''),
      sample_movie 11 (Some ''A'') (Some ''2020-01-01''),
      sample_movie 14 (Some ''D'') (Some ''2020-01-01'')]"
  "metaCache (observed sample_env sample_clock initial_cache 1) ''13'' = None"
  "metaCache (observed sample_env sample_clock initial_cache 2) ''13'' =
     Some \<lparr>timestamp = 1700000000001,
           data = MovieData (sample_movie 13 (Some ''C'') (Some ''2021-06-15''))\<rparr>"
  "metaCache (observed sample_env sample_clock initial_cache 2) ''11'' = None"
  "cached_results initial_cache = []"
  "metaCache (updateCatalogAndMetaCache sample_env sample_clock initial_cache) ''13'' =
     Some \<lparr>timestamp = 1700000000001,
           data = MovieData (sample_movie 13 (Some ''C'') (Some ''2021-06-15''))\<rparr>"
  by code_simp+

text \<open>
  The sample run from the empty cache, observed after its second resumption: the
  snapshot is the new one, the table has the record of its first entry and not yet that
  of its second.
\<close>

theorem observed_during_run_witness:
  "observed sample_env sample_clock initial_cache 0 = initial_cache \<and>
   metaCache (merge_metadata sample_env sample_clock 1 (take 1 (fetchMovies sample_env))
       (new_snapshot sample_env (sample_clock 0) initial_cache)) ''13'' =
     Some \<lparr>timestamp = 1700000000001,
           data = MovieData (sample_movie 13 (Some ''C'') (Some ''2021-06-15''))\<rparr> \<and>
   metaCache (merge_metadata sample_env sample_clock 1 (take 1 (fetchMovies sample_env))
       (new_snapshot sample_env (sample_clock 0) initial_cache)) ''11'' = None"
proof -
  note run = observed_during_run [of sample_env sample_clock initial_cache 1, unfolded Suc_1]
  from run have zero: "observed sample_env sample_clock initial_cache 0 = initial_cache"
    by (rule conjunct1)
  from run have two: "observed sample_env sample_clock initial_cache 2 =
      merge_metadata sample_env sample_clock 1 (take 1 (fetchMovies sample_env))
        (new_snapshot sample_env (sample_clock 0) initial_cache)"
    by (rule conjunct1 [OF conjunct2])
  show ?thesis
    unfolding two [symmetric] by (simp only: zero sample_observed simp_thms)
qed

text \<open>
  C1 as stated fails: after the first resumption of the sample run a reader sees the
  new snapshot, whose first entry is number 13, and a table without an entry for 13.
  This pair is neither the one before the run nor the one after it.
\<close>

theorem observed_during_run_counterexample:
  "cached_results (observed sample_env sample_clock initial_cache 1) =
     [sample_movie 13 (Some ''C'') (Some ''2021-06-15''),
      sample_movie 11 (Some ''A'') (Some ''2020-01-01''),
      sample_movie 14 (Some ''D'') (Some ''2020-01-01'')] \<and>
   metaCache (observed sample_env sample_clock initial_cache 1) ''13'' = None \<and>
   observed sample_env sample_clock initial_cache 1 \<noteq> initial_cache \<and>
   observed sample_env sample_clock initial_cache 1 \<noteq>
     updateCatalogAndMetaCache sample_env sample_clock initial_cache"
proof -
  have "observed sample_env sample_clock initial_cache 1 \<noteq> initial_cache"
  proof
    assume "observed sample_env sample_clock initial_cache 1 = initial_cache"
    then have "cached_results (observed sample_env sample_clock initial_cache 1) =
        cached_results initial_cache"
      by simp
    then show False by (simp only: sample_observed) simp
  qed
  moreover have "observed sample_env sample_clock initial_cache 1 \<noteq>
      updateCatalogAndMetaCache sample_env sample_clock initial_cache"
  proof
    assume "observed sample_env sample_clock initial_cache 1 =
        updateCatalogAndMetaCache sample_env sample_clock initial_cache"
    then have "metaCache (observed sample_env sample_clock initial_cache 1) ''13'' =
        metaCache (updateCatalogAndMetaCache sample_env sample_clock initial_cache) ''13''"
      by simp
    then show False by (simp only: sample_observed) simp
  qed
  ultimately show ?thesis
    using sample_observed(1,2) by simp
qed

subsection \<open>Start-up and the daily job\<close>

lemma loadCache_fails:
  "catalogFile = ReadFails \<or> catalogFile = ParseFails \<Longrightarrow>
   metaFile = ReadFails \<or> metaFile = ParseFails \<Longrightarrow>
   loadCache v catalogFile metaFile = v"
  by (auto simp: loadCache_def)

text \<open>
  When each file is missing or is not JSON, the variables stay the empty objects, and
  the catalog, which has no timestamp, makes \<^verbatim>\<open>startServer\<close> start one refresh run.
\<close>

lemma startServer_bootstraps:
  "catalogFile = ReadFails \<or> catalogFile = ParseFails \<Longrightarrow>
   metaFile = ReadFails \<or> metaFile = ParseFails \<Longrightarrow>
   startServer t catalogFile metaFile = Started cold_server"
  by (simp add: startServer_def loadCache_fails initial_variables_def refresh_needed_def
        refreshCache_def cold_server_def initial_cache_def)

lemma startServer_fresh:
  "startServer 1700000000000 (Parsed \<lparr>timestamp = Some 1699999999000, data = Some []\<rparr>) ReadFails =
     Started \<lparr>shared = \<lparr>catalogCache = \<lparr>timestamp = Some 1699999999000, data = Some []\<rparr>,
                         metaCache = Map.empty\<rparr>,
              runs = []\<rparr>"
  by (simp add: startServer_def loadCache_def initial_variables_def refresh_needed_def)

text \<open>
  Claim C7. The claim does not hold for every corrupt file. A catalog file whose content
  is \<^verbatim>\<open>null\<close> is parsed without an error; \<^verbatim>\<open>loadCache\<close> raises nothing but leaves
  \<^verbatim>\<open>catalogCache\<close> \<^verbatim>\<open>null\<close>, not the empty object, and \<^verbatim>\<open>startServer\<close> then throws at
  its test of the timestamp instead of starting a refresh run. A metadata file whose
  content is \<^verbatim>\<open>null\<close> leaves \<^verbatim>\<open>metaCache\<close> \<^verbatim>\<open>null\<close>, not the empty table; the start-up
  run is started, and it is given up at the first entry it would store, without a save.
\<close>

theorem startServer_null_file:
  "catalogCache_var (loadCache initial_variables ParsedNull metaFile) = None \<and>
   startServer t ParsedNull metaFile = Rejects TypeError \<and>
   metaCache_var (loadCache initial_variables catalogFile ParsedNull) = None \<and>
   startServer t ReadFails ParsedNull = NullTable \<lparr>timestamp = None, data = None\<rparr> True \<and>
   run_on_null_table e t' =
     (\<lparr>timestamp = Some t', data = Some (fetchMovies e)\<rparr>, fetchMovies e = [])"
proof -
  have null_catalog: "catalogCache_var (loadCache initial_variables ParsedNull metaFile) = None"
    by (cases metaFile) (simp_all add: loadCache_def)
  then have rejects: "startServer t ParsedNull metaFile = Rejects TypeError"
    by (simp add: startServer_def)
  have null_table: "metaCache_var (loadCache initial_variables catalogFile ParsedNull) = None"
    by (cases catalogFile) (simp_all add: loadCache_def)
  have table: "startServer t ReadFails ParsedNull = NullTable \<lparr>timestamp = None, data = None\<rparr> True"
    by (simp add: startServer_def loadCache_def initial_variables_def refresh_needed_def)
  from null_catalog rejects null_table table show ?thesis
    by (simp add: run_on_null_table_def)
qed

text \<open>
  With the sample API the run on a table that is \<^verbatim>\<open>null\<close> replaces the snapshot and
  does not reach the save.
\<close>

lemma run_on_null_table_sample:
  "snd (run_on_null_table sample_env 1700000000000) = False"
  by (simp add: run_on_null_table_def sample_fetchMovies)

lemma length_runs_step:
  "length (runs (step e s ev)) = length (runs s) + (if ev = Fire then 1 else 0)"
  by (cases ev) (simp_all add: refreshCache_def split_beta)

lemma length_runs_steps:
  "length (runs (foldl (step e) s evs)) = length (runs s) + count_list evs Fire"
  by (induction evs arbitrary: s) (simp_all add: length_runs_step)

text \<open>
  Claim C3, amended. Runs do not exclude each other. \<^verbatim>\<open>refreshCache\<close> has no test of a
  run in progress: each firing of the daily job starts a run at once, so the number of
  runs in flight grows by one, and over any sequence of events the number of runs
  started is the number of firings; none is skipped or put off.
\<close>

theorem refresh_runs_overlap:
  "in_flight (step e s Fire) = Suc (in_flight s) \<and>
   length (runs (foldl (step e) s evs)) = length (runs s) + count_list evs Fire"
  by (simp add: length_runs_steps in_flight_def refreshCache_def)

text \<open>
  The start-up run of a server without files is in flight when the job fires twice: one
  more run is in flight after each firing.
\<close>

theorem refresh_runs_overlap_witness:
  "startServer 1700000000000 ReadFails ReadFails = Started cold_server \<and>
   in_flight cold_server = 1 \<and>
   in_flight (step sample_env cold_server Fire) = 2 \<and>
   length (runs (foldl (step sample_env) cold_server
                   [Fire, Resume 0 1700000000001, Fire])) = 3"
proof -
  have start: "startServer 1700000000000 ReadFails ReadFails = Started cold_server"
    by (simp add: startServer_bootstraps)
  have one: "in_flight cold_server = 1"
    and len: "length (runs cold_server) = 1"
    by (simp_all add: in_flight_def cold_server_def)
  have "count_list [Fire, Resume 0 1700000000001, Fire] Fire = 2"
    by simp
  with start one len show ?thesis
    using refresh_runs_overlap [of sample_env cold_server
        "[Fire, Resume 0 1700000000001, Fire]"]
    by simp
qed

text \<open>
  C3 as stated fails: with the start-up run in flight, two firings give three runs in
  flight at once; and when the first run has finished, after five resumptions, two runs
  are in flight, not one.
\<close>

theorem refresh_runs_overlap_counterexample:
  "startServer 1700000000000 ReadFails ReadFails = Started cold_server \<and>
   in_flight cold_server = 1 \<and>
   in_flight (foldl (step sample_env) cold_server [Fire, Fire]) = 3 \<and>
   runs (foldl (step sample_env) cold_server
           [Fire, Fire, Resume 0 1700000000001, Resume 0 1700000000002,
            Resume 0 1700000000003, Resume 0 1700000000004, Resume 0 1700000000005]) =
     [Finished, AwaitFetchMovies, AwaitFetchMovies]"
proof -
  have "startServer 1700000000000 ReadFails ReadFails = Started cold_server"
    by (simp add: startServer_bootstraps)
  moreover have "in_flight cold_server = 1"
    and "in_flight (foldl (step sample_env) cold_server [Fire, Fire]) = 3"
    and "runs (foldl (step sample_env) cold_server
           [Fire, Fire, Resume 0 1700000000001, Resume 0 1700000000002,
            Resume 0 1700000000003, Resume 0 1700000000004, Resume 0 1700000000005]) =
     [Finished, AwaitFetchMovies, AwaitFetchMovies]"
    by code_simp+
  ultimately show ?thesis by (simp only: simp_thms)
qed

end
